theory Spec2Isabelle
  imports Complex_Main "HOL-Library.Word"
begin

unbundle bit_operations_syntax

section \<open>The SDS011 driver (src/sds011/__init__.py) as HOL functions\<close>

text \<open>
  A Python \<open>bytes\<close> object is a list of 8-bit words. Sums over bytes are taken on
  Python's unbounded integers, so \<open>sum(d for d in data)\<close> is
  \<open>sum_list (map unat data)\<close>, a natural number, reduced afterwards by
  \<open>% 256\<close> or \<open>& 255\<close> as the source writes it.
\<close>

type_synonym byte = "8 word"
type_synonym bytes = "byte list"

text \<open>The slice \<open>xs[i:j]\<close> for indices \<open>0 \<le> i\<close>, \<open>0 \<le> j\<close>; \<open>xs[i:]\<close> is \<open>drop i xs\<close>.\<close>

definition py_slice :: "nat \<Rightarrow> nat \<Rightarrow> 'a list \<Rightarrow> 'a list" where
  "py_slice i j xs = drop i (take j xs)"

definition byte_sum :: "bytes \<Rightarrow> nat" where
  "byte_sum data = sum_list (map unat data)"

subsection \<open>Class constants\<close>

definition HEAD :: bytes where "HEAD = [0xAA]"
definition TAIL :: bytes where "TAIL = [0xAB]"
definition CMD_ID :: bytes where "CMD_ID = [0xB4]"
definition READ :: bytes where "READ = [0x00]"
definition WRITE :: bytes where "WRITE = [0x01]"
definition REPORT_MODE_CMD :: bytes where "REPORT_MODE_CMD = [0x02]"
definition ACTIVE :: bytes where "ACTIVE = [0x00]"
definition PASSIVE :: bytes where "PASSIVE = [0x01]"
definition QUERY_CMD :: bytes where "QUERY_CMD = [0x04]"
definition SLEEP_CMD :: bytes where "SLEEP_CMD = [0x06]"
definition SLEEP :: bytes where "SLEEP = [0x00]"
definition WORK :: bytes where "WORK = [0x01]"
definition WORK_PERIOD_CMD :: bytes where "WORK_PERIOD_CMD = [0x08]"
definition FIRMWARE_VERSION_CMD :: bytes where "FIRMWARE_VERSION_CMD = [0x07]"

subsection \<open>Building commands\<close>

text \<open>\<open>cmd_begin\<close>: \<open>return self.HEAD + self.CMD_ID\<close>.\<close>

definition cmd_begin :: bytes where
  "cmd_begin = HEAD @ CMD_ID"

text \<open>
  \<open>_finish_cmd(cmd, id1, id2)\<close>: append the device id, then the checksum of everything
  from offset 2 on, then the tail. \<open>finish_cmd\<close> is the call with the default ids
  \<open>b"\xff"\<close>, the only one the source makes.
\<close>

definition finish_cmd_ids :: "bytes \<Rightarrow> bytes \<Rightarrow> bytes \<Rightarrow> bytes" where
  "finish_cmd_ids cmd id1 id2 =
     (let cmd1 = cmd @ id1 @ id2;
          checksum = byte_sum (drop 2 cmd1) mod 256
      in cmd1 @ [of_nat checksum] @ TAIL)"

definition finish_cmd :: "bytes \<Rightarrow> bytes" where
  "finish_cmd cmd = finish_cmd_ids cmd [0xFF] [0xFF]"

text \<open>
  The command each operation builds before it calls \<open>_execute\<close>: the lines from
  \<open>cmd = self.cmd_begin()\<close> to \<open>cmd = self._finish_cmd(cmd)\<close> of
  \<open>set_report_mode\<close>, \<open>query\<close>, \<open>sleep\<close>, \<open>set_work_period\<close> and
  \<open>check_firmware_version\<close>. In \<open>set_work_period\<close> the byte \<open>bytes([work_time])\<close>
  is built only after the assertion \<open>0 \<le> work_time \<le> 30\<close>, so it cannot raise.
  The parameters \<open>read\<close>, \<open>query\<close> and \<open>sleep\<close> of the source are written
  \<open>rd\<close>, \<open>qm\<close> and \<open>sl\<close>, the operations of the same names being defined below.
\<close>

definition report_mode_cmd :: "bool \<Rightarrow> bool \<Rightarrow> bytes" where
  "report_mode_cmd rd qm =
     finish_cmd (cmd_begin @ (REPORT_MODE_CMD
                   @ (if rd then READ else WRITE)
                   @ (if qm then PASSIVE else ACTIVE)
                   @ replicate 10 0x00))"

definition query_cmd :: bytes where
  "query_cmd = finish_cmd (cmd_begin @ (QUERY_CMD @ replicate 12 0x00))"

definition sleep_cmd :: "bool \<Rightarrow> bool \<Rightarrow> bytes" where
  "sleep_cmd rd sl =
     finish_cmd (cmd_begin @ (SLEEP_CMD
                   @ (if rd then READ else WRITE)
                   @ (if sl then SLEEP else WORK)
                   @ replicate 10 0x00))"

definition work_period_cmd :: "bool \<Rightarrow> int \<Rightarrow> bytes" where
  "work_period_cmd rd work_time =
     finish_cmd (cmd_begin @ (WORK_PERIOD_CMD
                   @ (if rd then READ else WRITE)
                   @ [word_of_int work_time]
                   @ replicate 10 0x00))"

definition firmware_version_cmd :: bytes where
  "firmware_version_cmd = finish_cmd (cmd_begin @ (FIRMWARE_VERSION_CMD @ replicate 12 0x00))"

text \<open>
  The layout the specification gives a command: 19 bytes, the tail \<open>0xAB\<close> last, and at
  offset 17 the sum of the bytes at offsets 2 to 16, modulo 256.
\<close>

definition command_layout :: "bytes \<Rightarrow> bool" where
  "command_layout c \<longleftrightarrow>
     length c = 19 \<and> last c = 0xAB \<and> unat (c ! 17) = byte_sum (py_slice 2 17 c) mod 256"


subsection \<open>Driver state, transport and exceptions\<close>

text \<open>
  The exceptions the modelled code can raise: indexing past the end of a \<open>bytes\<close>
  object, subscripting \<open>None\<close>, \<open>struct.unpack\<close> on a buffer of the wrong size,
  and a failed \<open>assert\<close>.
\<close>

datatype error = IndexError | TypeError | StructError | AssertionError

text \<open>
  The object's field \<open>use_query_mode\<close> and the serial port \<open>ser\<close>: whether it is
  open, \<open>rx\<close> the bytes the device delivers to the coming reads, \<open>tx\<close> the buffers
  written so far, in order. \<open>printed\<close> collects the lines given to \<open>print\<close>.
  \<open>ser.read(size=n)\<close> blocks until \<open>n\<close> bytes have arrived or the timeout expires; it
  returns the first \<open>n\<close> bytes of \<open>rx\<close>, and fewer (down to \<open>b''\<close>) when \<open>rx\<close> runs
  out, which is a read that timed out. The fields \<open>port\<close>, \<open>baudrate\<close> and
  \<open>timeout\<close> only configure the port and are left out, as are \<open>__init__\<close> and
  \<open>__del__\<close>: the operations below start from any state of the object.
\<close>

record sds011 =
  use_query_mode :: bool
  is_open :: bool
  rx :: bytes
  tx :: "bytes list"
  printed :: "string list"

text \<open>An operation returns its value or raises, and leaves the object changed either way.\<close>

type_synonym 'a result = "(error + 'a) \<times> sds011"

type_synonym measurement = "real \<times> real"

definition ser_read :: "nat \<Rightarrow> sds011 \<Rightarrow> bytes \<times> sds011" where
  "ser_read n s = (take n (rx s), s\<lparr>rx := drop n (rx s)\<rparr>)"

definition ser_write :: "bytes \<Rightarrow> sds011 \<Rightarrow> sds011" where
  "ser_write b s = s\<lparr>tx := tx s @ [b]\<rparr>"

definition is_serial_open :: "sds011 \<Rightarrow> bool" where
  "is_serial_open s = is_open s"

definition close_serial :: "sds011 \<Rightarrow> sds011" where
  "close_serial s = s\<lparr>is_open := False\<rparr>"

subsection \<open>\<open>struct.unpack\<close>\<close>

text \<open>
  \<open>struct.unpack(fmt, buf)\<close> raises \<open>struct.error\<close> unless \<open>buf\<close> has exactly the size
  of the format: 1 byte for \<open>'B'\<close>, 4 for \<open>'<HH'\<close>, 9 for \<open>'<HHxxBBB'\<close>.
\<close>

definition le16 :: "byte \<Rightarrow> byte \<Rightarrow> nat" where
  "le16 lo hi = unat lo + 256 * unat hi"

definition unpack_B :: "bytes \<Rightarrow> error + byte" where
  "unpack_B buf = (if length buf = 1 then Inr (buf ! 0) else Inl StructError)"

definition unpack_HH :: "bytes \<Rightarrow> error + nat \<times> nat" where
  "unpack_HH buf =
     (if length buf = 4 then Inr (le16 (buf ! 0) (buf ! 1), le16 (buf ! 2) (buf ! 3))
      else Inl StructError)"

definition unpack_HHxxBBB :: "bytes \<Rightarrow> error + nat \<times> nat \<times> byte \<times> byte \<times> byte" where
  "unpack_HHxxBBB buf =
     (if length buf = 9
      then Inr (le16 (buf ! 0) (buf ! 1), le16 (buf ! 2) (buf ! 3), buf ! 6, buf ! 7, buf ! 8)
      else Inl StructError)"

subsection \<open>Replies\<close>

text \<open>
  \<open>_get_reply\<close> after its read, lines 88 to 93: \<open>data = raw[2:8]\<close>; an empty \<open>data\<close>
  gives \<open>None\<close>; then \<open>raw[8]\<close> is indexed, which raises when \<open>raw\<close> has 8 bytes or
  fewer; the sum of \<open>data\<close> is compared with it. Nothing else of \<open>raw\<close> is looked at.
\<close>

definition reply_check :: "bytes \<Rightarrow> error + bytes option" where
  "reply_check raw =
     (let data = py_slice 2 8 raw in
      if length data = 0 then Inr None
      else if length raw \<le> 8 then Inl IndexError
      else if (byte_sum data AND 255) \<noteq> unat (raw ! 8) then Inr None
      else Inr (Some raw))"

text \<open>\<open>raw = self.ser.read(size=10)\<close> followed by the check, on an open port.\<close>

definition read_reply :: "sds011 \<Rightarrow> bytes option result" where
  "read_reply s = (let (raw, s1) = ser_read 10 s in (reply_check raw, s1))"

text \<open>
  \<open>set_report_mode\<close>, \<open>_execute\<close>, \<open>_get_reply\<close> and \<open>open_serial\<close> call each other:
  \<open>_execute\<close> and \<open>_get_reply\<close> call \<open>open_serial\<close> when the port is closed, and
  \<open>open_serial\<close> opens a new port and calls \<open>set_report_mode\<close>, whose \<open>_execute\<close> and
  \<open>_get_reply\<close> then find the port open. \<open>set_report_mode_opened\<close> is that inner call:
  \<open>set_report_mode\<close> with the two \<open>is_serial_open\<close> tests taken as true.
\<close>

definition set_report_mode_opened :: "bool \<Rightarrow> bool \<Rightarrow> sds011 \<Rightarrow> byte option result" where
  "set_report_mode_opened rd qm s =
     (let s0 = s\<lparr>use_query_mode := qm\<rparr>;
          s1 = ser_write (report_mode_cmd rd qm) s0
      in case read_reply s1 of
           (Inl e, s2) \<Rightarrow> (Inl e, s2)
         | (Inr None, s2) \<Rightarrow> (Inr None, s2)
         | (Inr (Some raw), s2) \<Rightarrow>
             (case unpack_B (py_slice 4 5 raw) of
                Inl e \<Rightarrow> (Inl e, s2)
              | Inr b \<Rightarrow> (Inr (Some b), s2)))"

text \<open>
  \<open>open_serial\<close>: a new \<open>serial.Serial\<close> (open once constructed), \<open>flush\<close>, then
  \<open>self.set_report_mode(query=self.use_query_mode)\<close>, whose result is dropped.
\<close>

definition open_serial :: "sds011 \<Rightarrow> unit result" where
  "open_serial s =
     (let s1 = s\<lparr>is_open := True\<rparr> in
      case set_report_mode_opened False (use_query_mode s1) s1 of
        (Inl e, s2) \<Rightarrow> (Inl e, s2)
      | (Inr _, s2) \<Rightarrow> (Inr (), s2))"

text \<open>\<open>if not self.is_serial_open(): self.open_serial()\<close>\<close>

definition ensure_open :: "sds011 \<Rightarrow> unit result" where
  "ensure_open s = (if \<not> is_serial_open s then open_serial s else (Inr (), s))"

definition execute :: "bytes \<Rightarrow> sds011 \<Rightarrow> unit result" where
  "execute cmd_bytes s =
     (case ensure_open s of
        (Inl e, s1) \<Rightarrow> (Inl e, s1)
      | (Inr _, s1) \<Rightarrow> (Inr (), ser_write cmd_bytes s1))"

definition get_reply :: "sds011 \<Rightarrow> bytes option result" where
  "get_reply s =
     (case ensure_open s of
        (Inl e, s1) \<Rightarrow> (Inl e, s1)
      | (Inr _, s1) \<Rightarrow> read_reply s1)"

subsection \<open>Operations\<close>

definition set_report_mode :: "bool \<Rightarrow> bool \<Rightarrow> sds011 \<Rightarrow> byte option result" where
  "set_report_mode rd qm s =
     (let s0 = s\<lparr>use_query_mode := qm\<rparr> in
      case execute (report_mode_cmd rd qm) s0 of
        (Inl e, s1) \<Rightarrow> (Inl e, s1)
      | (Inr _, s1) \<Rightarrow>
          (case get_reply s1 of
             (Inl e, s2) \<Rightarrow> (Inl e, s2)
           | (Inr None, s2) \<Rightarrow> (Inr None, s2)
           | (Inr (Some raw), s2) \<Rightarrow>
               (case unpack_B (py_slice 4 5 raw) of
                  Inl e \<Rightarrow> (Inl e, s2)
                | Inr b \<Rightarrow> (Inr (Some b), s2))))"

text \<open>
  \<open>query\<close>: the advisory line is printed when the reply is \<open>None\<close> and
  \<open>self.use_query_mode == 0\<close>, that is \<open>False\<close>. The quotients \<open>data[0] / 10.0\<close> are
  Python floats; they are modelled by the exact quotients.
\<close>

definition query :: "sds011 \<Rightarrow> measurement option result" where
  "query s =
     (case execute query_cmd s of
        (Inl e, s1) \<Rightarrow> (Inl e, s1)
      | (Inr _, s1) \<Rightarrow>
          (case get_reply s1 of
             (Inl e, s2) \<Rightarrow> (Inl e, s2)
           | (Inr None, s2) \<Rightarrow>
               (Inr None,
                if \<not> use_query_mode s2
                then s2\<lparr>printed := printed s2 @ [''SDS011 is in active reporting mode, use read()'']\<rparr>
                else s2)
           | (Inr (Some raw), s2) \<Rightarrow>
               (case unpack_HH (py_slice 2 6 raw) of
                  Inl e \<Rightarrow> (Inl e, s2)
                | Inr data \<Rightarrow> (Inr (Some (real (fst data) / 10, real (snd data) / 10)), s2))))"

definition sleep :: "bool \<Rightarrow> bool \<Rightarrow> sds011 \<Rightarrow> byte result" where
  "sleep rd sl s =
     (case execute (sleep_cmd rd sl) s of
        (Inl e, s1) \<Rightarrow> (Inl e, s1)
      | (Inr _, s1) \<Rightarrow>
          (case get_reply s1 of
             (Inl e, s2) \<Rightarrow> (Inl e, s2)
           | (Inr None, s2) \<Rightarrow> (Inr 0, s2)
           | (Inr (Some raw), s2) \<Rightarrow>
               (case unpack_B (py_slice 4 5 raw) of
                  Inl e \<Rightarrow> (Inl e, s2)
                | Inr b \<Rightarrow> (Inr b, s2))))"

text \<open>\<open>set_work_period\<close> ends with \<open>self._get_reply()\<close> and returns nothing.\<close>

definition set_work_period :: "bool \<Rightarrow> int \<Rightarrow> sds011 \<Rightarrow> unit result" where
  "set_work_period rd work_time s =
     (if \<not> (work_time \<ge> 0 \<and> work_time \<le> 30) then (Inl AssertionError, s)
      else
        case execute (work_period_cmd rd work_time) s of
          (Inl e, s1) \<Rightarrow> (Inl e, s1)
        | (Inr _, s1) \<Rightarrow>
            (case get_reply s1 of
               (Inl e, s2) \<Rightarrow> (Inl e, s2)
             | (Inr _, s2) \<Rightarrow> (Inr (), s2)))"

text \<open>
  \<open>_process_frame(data)\<close>: the unpacking of \<open>data[2:]\<close> comes first and needs 9 bytes,
  so \<open>data\<close> must have 11; then the checksum of \<open>data[2:8]\<close> against \<open>data[8]\<close>.
\<close>

definition process_frame :: "bytes \<Rightarrow> error + measurement option" where
  "process_frame data =
     (case unpack_HHxxBBB (drop 2 data) of
        Inl e \<Rightarrow> Inl e
      | Inr raw \<Rightarrow>
          (let checksum = byte_sum (py_slice 2 8 data) mod 256 in
           if checksum \<noteq> unat (data ! 8) then Inr None
           else Inr (Some (real (fst raw) / 10, real (fst (snd raw)) / 10))))"

text \<open>
  The loop of \<open>read\<close>. \<open>byte = 0\<close> differs from \<open>HEAD\<close>, so the body runs at least
  once: one byte is read, then ten more; a first byte \<open>0xC0\<close> among the ten makes
  \<open>read\<close> return what \<open>_process_frame(byte + d)\<close> gives; otherwise the loop goes on while
  \<open>byte != HEAD\<close>, and \<open>read\<close> returns \<open>None\<close> when it ends. The loop need not end:
  a run that never returns is the value \<open>None\<close> of the option type around the result.
\<close>

partial_function (option) read_loop :: "sds011 \<Rightarrow> (measurement option result) option" where
  "read_loop s =
     (let (byte, s1) = ser_read 1 s;
          (d, s2) = ser_read 10 s1
      in if py_slice 0 1 d = [0xC0]
         then (case process_frame (byte @ d) of
                 Inl e \<Rightarrow> Some (Inl e, s2)
               | Inr data \<Rightarrow>
                   Some (Inr data,
                     if data = None \<and> use_query_mode s2
                     then s2\<lparr>printed := printed s2 @ [''SDS011 is in query reporting mode, use query()'']\<rparr>
                     else s2))
         else if byte \<noteq> HEAD then read_loop s2
         else Some (Inr None, s2))"

declare read_loop.simps [code]

definition read :: "sds011 \<Rightarrow> (measurement option result) option" where
  "read s =
     (case ensure_open s of
        (Inl e, s1) \<Rightarrow> Some (Inl e, s1)
      | (Inr _, s1) \<Rightarrow> read_loop s1)"

text \<open>Decimal digits of a number, as an f-string renders an \<open>int\<close>.\<close>

fun decimal :: "nat \<Rightarrow> string" where
  "decimal n =
     (if n < 10 then [char_of (48 + n)]
      else decimal (n div 10) @ [char_of (48 + n mod 10)])"

declare decimal.simps [simp del]

text \<open>
  \<open>check_firmware_version\<close> subscripts the reply without testing it for \<open>None\<close>.
\<close>

definition check_firmware_version :: "sds011 \<Rightarrow> string result" where
  "check_firmware_version s =
     (case execute firmware_version_cmd s of
        (Inl e, s1) \<Rightarrow> (Inl e, s1)
      | (Inr _, s1) \<Rightarrow>
          (case get_reply s1 of
             (Inl e, s2) \<Rightarrow> (Inl e, s2)
           | (Inr None, s2) \<Rightarrow> (Inl TypeError, s2)
           | (Inr (Some raw), s2) \<Rightarrow>
               (if length raw \<le> 4 then (Inl IndexError, s2)
                else (Inr (decimal (unat (raw ! 2)) @ ''-'' @ decimal (unat (raw ! 3))
                           @ ''-'' @ decimal (unat (raw ! 4))), s2))))"

section \<open>Command framing\<close>

lemmas sds011_consts =
  HEAD_def TAIL_def CMD_ID_def READ_def WRITE_def REPORT_MODE_CMD_def ACTIVE_def
  PASSIVE_def QUERY_CMD_def SLEEP_CMD_def SLEEP_def WORK_def WORK_PERIOD_CMD_def
  FIRMWARE_VERSION_CMD_def

lemma replicate_10: "replicate 10 x = [x, x, x, x, x, x, x, x, x, x]"
  by (simp add: numeral_eq_Suc)

lemma replicate_12: "replicate 12 x = [x, x, x, x, x, x, x, x, x, x, x, x]"
  by (simp add: numeral_eq_Suc)

lemma unat_of_nat_mod256: "unat (of_nat (n mod 256) :: byte) = n mod 256"
  by (simp add: unat_of_nat)

lemma finish_cmd_layout:
  assumes "length cmd = 15"
  shows "command_layout (finish_cmd cmd)"
proof -
  let ?c1 = "cmd @ [0xFF, 0xFF :: byte]"
  let ?ck = "of_nat (byte_sum (drop 2 ?c1) mod 256) :: byte"
  have c: "finish_cmd cmd = ?c1 @ [?ck, 0xAB]"
    by (simp add: finish_cmd_def finish_cmd_ids_def TAIL_def Let_def)
  have len: "length ?c1 = 17"
    using assms by simp
  have at17: "(?c1 @ [?ck, 0xAB]) ! 17 = ?ck"
    using len by (simp add: nth_append)
  have sl: "py_slice 2 17 (?c1 @ [?ck, 0xAB]) = drop 2 ?c1"
    using len by (simp add: py_slice_def)
  show ?thesis
    unfolding command_layout_def c at17 sl
    using len by (simp add: unat_of_nat_mod256)
qed

lemma source_commands_layout:
  "command_layout (report_mode_cmd rd qm)"
  "command_layout query_cmd"
  "command_layout (sleep_cmd rd sl)"
  "command_layout (work_period_cmd rd work_time)"
  "command_layout firmware_version_cmd"
  unfolding report_mode_cmd_def query_cmd_def sleep_cmd_def work_period_cmd_def
    firmware_version_cmd_def
  by (rule finish_cmd_layout, simp add: cmd_begin_def sds011_consts)+

text \<open>
  C6. A command buffer built as \<open>cmd_begin\<close>, one command-id byte, the 12 payload
  bytes and \<open>_finish_cmd\<close> has exactly 19 bytes, ends in \<open>0xAB\<close>, and its byte at
  offset 17 is the sum of the bytes at offsets 2 to 16 modulo 256. The source always
  supplies 12 payload bytes; the five commands it builds are instances, for every value
  of their parameters.
\<close>

theorem command_buffer_layout:
  "(length payload = 12 \<longrightarrow> command_layout (finish_cmd (cmd_begin @ ([cmd_id] @ payload))))
   \<and> command_layout (report_mode_cmd rd qm)
   \<and> command_layout query_cmd
   \<and> command_layout (sleep_cmd rd sl)
   \<and> command_layout (work_period_cmd rd work_time)
   \<and> command_layout firmware_version_cmd"
proof -
  have "command_layout (finish_cmd (cmd_begin @ ([cmd_id] @ payload)))"
    if "length payload = 12"
    by (rule finish_cmd_layout) (simp add: that cmd_begin_def sds011_consts)
  then show ?thesis
    by (simp add: source_commands_layout)
qed

theorem command_buffer_layout_witness:
  "length (replicate 12 (0x00 :: byte)) = 12
   \<and> query_cmd = finish_cmd (cmd_begin @ ([0x04] @ replicate 12 0x00))
   \<and> query_cmd = [0xAA, 0xB4, 0x04, 0, 0, 0, 0, 0, 0, 0, 0, 0, 0, 0, 0, 0xFF, 0xFF, 0x02, 0xAB]
   \<and> command_layout query_cmd"
proof -
  have q: "query_cmd = finish_cmd (cmd_begin @ ([0x04] @ replicate 12 0x00))"
    by (simp add: query_cmd_def QUERY_CMD_def)
  have v: "query_cmd
    = [0xAA, 0xB4, 0x04, 0, 0, 0, 0, 0, 0, 0, 0, 0, 0, 0, 0, 0xFF, 0xFF, 0x02, 0xAB]"
    by (simp add: query_cmd_def finish_cmd_def finish_cmd_ids_def cmd_begin_def
        sds011_consts byte_sum_def Let_def replicate_12)
  from command_buffer_layout [of "replicate 12 0x00" "0x04"]
  have "command_layout (finish_cmd (cmd_begin @ ([0x04] @ replicate 12 0x00)))"
    by simp
  with q v show ?thesis by simp
qed

section \<open>Replies and the open port\<close>

lemma and_255_mod: "(n::nat) AND 255 = n mod 256"
proof -
  have "(255::nat) = mask 8" by (simp add: mask_eq_exp_minus_1)
  then have "n AND 255 = take_bit 8 n" by (simp add: take_bit_eq_mask)
  then show ?thesis by (simp add: take_bit_eq_mod)
qed

lemma reply_check_full:
  assumes "length raw = 10"
  shows "reply_check raw =
    Inr (if byte_sum (py_slice 2 8 raw) mod 256 = unat (raw ! 8) then Some raw else None)"
  using assms by (simp add: reply_check_def py_slice_def Let_def and_255_mod)

lemma reply_check_absent:
  assumes "length raw \<le> 2"
  shows "reply_check raw = Inr None"
  using assms by (simp add: reply_check_def py_slice_def Let_def)

lemma reply_check_short:
  assumes "3 \<le> length raw" "length raw \<le> 8"
  shows "reply_check raw = Inl IndexError"
  using assms by (simp add: reply_check_def py_slice_def Let_def)

lemma ensure_open_open: "is_open s \<Longrightarrow> ensure_open s = (Inr (), s)"
  by (simp add: ensure_open_def is_serial_open_def)

lemma execute_open: "is_open s \<Longrightarrow> execute c s = (Inr (), ser_write c s)"
  by (simp add: execute_def ensure_open_open)

lemma get_reply_open: "is_open s \<Longrightarrow> get_reply s = read_reply s"
  by (simp add: get_reply_def ensure_open_open)

lemma is_open_ser_write: "is_open (ser_write c s) = is_open s"
  by (simp add: ser_write_def)

text \<open>On an open port \<open>set_report_mode\<close> is the inner call that \<open>open_serial\<close> makes.\<close>

lemma set_report_mode_open:
  "is_open s \<Longrightarrow> set_report_mode rd qm s = set_report_mode_opened rd qm s"
  by (simp add: set_report_mode_def set_report_mode_opened_def execute_open get_reply_open
      is_open_ser_write Let_def)

lemma read_reply_full:
  assumes "rx s = raw @ rest" "length raw = 10"
  shows "read_reply s =
    (Inr (if byte_sum (py_slice 2 8 raw) mod 256 = unat (raw ! 8) then Some raw else None),
     s\<lparr>rx := rest\<rparr>)"
  using assms by (simp add: read_reply_def ser_read_def reply_check_full)

lemma read_reply_silent:
  assumes "rx s = []"
  shows "read_reply s = (Inr None, s)"
  using assms by (simp add: read_reply_def ser_read_def reply_check_absent)

lemma reply_check_returns:
  assumes "length raw \<le> 2 \<or> 9 \<le> length raw"
  shows "\<exists>r. reply_check raw = Inr r"
  using assms by (auto simp add: reply_check_def py_slice_def Let_def)

lemma snd_read_reply: "snd (read_reply s) = s\<lparr>rx := drop 10 (rx s)\<rparr>"
  by (simp add: read_reply_def ser_read_def)

lemma unpack_B_byte4:
  assumes "5 \<le> length raw"
  shows "unpack_B (py_slice 4 5 raw) = Inr (raw ! 4)"
  using assms by (simp add: unpack_B_def py_slice_def)

lemma unpack_HH_fields:
  assumes "6 \<le> length raw"
  shows "unpack_HH (py_slice 2 6 raw)
    = Inr (le16 (raw ! 2) (raw ! 3), le16 (raw ! 4) (raw ! 5))"
  using assms by (simp add: unpack_HH_def py_slice_def)

section \<open>Reply validation\<close>

text \<open>
  C1, as the code has it. For every 10-byte reply buffer the check of \<open>_get_reply\<close>
  returns the buffer if and only if the sum of the bytes at offsets 2 to 7, modulo 256,
  equals the byte at offset 8, and returns \<open>None\<close> otherwise. The head byte, the
  marker byte and the tail are not examined. On an open port \<open>_get_reply\<close> takes the
  next 10 bytes of the stream as that buffer.
\<close>

theorem get_reply_checksum_only:
  assumes "length raw = 10"
  shows "reply_check raw =
      Inr (if byte_sum (py_slice 2 8 raw) mod 256 = unat (raw ! 8) then Some raw else None)
    \<and> (is_open s \<and> rx s = raw @ rest \<longrightarrow>
         get_reply s =
           (Inr (if byte_sum (py_slice 2 8 raw) mod 256 = unat (raw ! 8) then Some raw else None),
            s\<lparr>rx := rest\<rparr>))"
  using assms by (simp add: reply_check_full get_reply_open read_reply_full)

theorem get_reply_checksum_only_witness:
  "length [0xAA, 0xC5, 0x06, 0x01, 0x00, 0x00, 0xA1, 0x60, 0x08, 0xAB :: byte] = 10
   \<and> reply_check [0xAA, 0xC5, 0x06, 0x01, 0x00, 0x00, 0xA1, 0x60, 0x08, 0xAB]
       = Inr (Some [0xAA, 0xC5, 0x06, 0x01, 0x00, 0x00, 0xA1, 0x60, 0x08, 0xAB])
   \<and> get_reply \<lparr>use_query_mode = True, is_open = True,
         rx = [0xAA, 0xC5, 0x06, 0x01, 0x00, 0x00, 0xA1, 0x60, 0x09, 0xAB, 0x11],
         tx = [], printed = []\<rparr>
       = (Inr None, \<lparr>use_query_mode = True, is_open = True, rx = [0x11], tx = [], printed = []\<rparr>)"
  using get_reply_checksum_only [of "[0xAA, 0xC5, 0x06, 0x01, 0x00, 0x00, 0xA1, 0x60, 0x08, 0xAB]"]
    get_reply_checksum_only [of "[0xAA, 0xC5, 0x06, 0x01, 0x00, 0x00, 0xA1, 0x60, 0x09, 0xAB]"
      "\<lparr>use_query_mode = True, is_open = True,
         rx = [0xAA, 0xC5, 0x06, 0x01, 0x00, 0x00, 0xA1, 0x60, 0x09, 0xAB, 0x11],
         tx = [], printed = []\<rparr>" "[0x11]"]
  by (simp add: byte_sum_def py_slice_def)

text \<open>
  The claim as the specification states it fails: a 10-byte reply whose head byte is
  \<open>0x00\<close> and whose checksum matches is returned by \<open>_get_reply\<close>, not rejected.
\<close>

theorem reply_with_wrong_head_accepted:
  "length [0x00, 0xC5, 0x06, 0x01, 0x00, 0x00, 0xA1, 0x60, 0x08, 0xAB :: byte] = 10
   \<and> [0x00, 0xC5, 0x06, 0x01, 0x00, 0x00, 0xA1, 0x60, 0x08, 0xAB :: byte] ! 0 \<noteq> 0xAA
   \<and> get_reply \<lparr>use_query_mode = True, is_open = True,
         rx = [0x00, 0xC5, 0x06, 0x01, 0x00, 0x00, 0xA1, 0x60, 0x08, 0xAB],
         tx = [], printed = []\<rparr>
       = (Inr (Some [0x00, 0xC5, 0x06, 0x01, 0x00, 0x00, 0xA1, 0x60, 0x08, 0xAB]),
          \<lparr>use_query_mode = True, is_open = True, rx = [], tx = [], printed = []\<rparr>)"
  by (simp add: get_reply_def ensure_open_def is_serial_open_def read_reply_def ser_read_def
      reply_check_def py_slice_def byte_sum_def Let_def)

section \<open>Frames in active mode\<close>

lemma process_frame_valid:
  assumes "length f = 10" "byte_sum (py_slice 2 8 f) mod 256 = unat (f ! 8)"
  shows "process_frame (f @ [x])
    = Inr (Some (real (le16 (f ! 2) (f ! 3)) / 10, real (le16 (f ! 4) (f ! 5)) / 10))"
  using assms
  by (simp add: process_frame_def unpack_HHxxBBB_def py_slice_def nth_append Let_def)

lemma process_frame_wrong_size:
  assumes "length data \<noteq> 11"
  shows "process_frame data = Inl StructError"
  using assms by (auto simp add: process_frame_def unpack_HHxxBBB_def)

lemma read_loop_skip:
  assumes "take 1 (rx s) \<noteq> [0xAA]" "take 1 (drop 1 (rx s)) \<noteq> [0xC0]"
  shows "read_loop s = read_loop (s\<lparr>rx := drop 11 (rx s)\<rparr>)"
  using assms
  by (subst read_loop.simps) (simp add: ser_read_def py_slice_def HEAD_def)

lemma read_loop_head_without_marker:
  assumes "take 1 (rx s) = [0xAA]" "take 1 (drop 1 (rx s)) \<noteq> [0xC0]"
  shows "read_loop s = Some (Inr None, s\<lparr>rx := drop 11 (rx s)\<rparr>)"
  using assms
  by (subst read_loop.simps) (simp add: ser_read_def py_slice_def HEAD_def)

lemma length_10_explode:
  assumes "length (f :: 'a list) = 10"
  obtains a0 a1 a2 a3 a4 a5 a6 a7 a8 a9 where "f = [a0, a1, a2, a3, a4, a5, a6, a7, a8, a9]"
proof -
  from assms have "\<exists>a0 a1 a2 a3 a4 a5 a6 a7 a8 a9. f = [a0, a1, a2, a3, a4, a5, a6, a7, a8, a9]"
    by (simp add: numeral_eq_Suc length_Suc_conv) blast
  then show thesis using that by blast
qed

lemma read_loop_frame:
  assumes "rx s = f @ x # rest" "length f = 10" "f ! 1 = 0xC0"
    "byte_sum (py_slice 2 8 f) mod 256 = unat (f ! 8)"
  shows "read_loop s
    = Some (Inr (Some (real (le16 (f ! 2) (f ! 3)) / 10, real (le16 (f ! 4) (f ! 5)) / 10)),
            s\<lparr>rx := rest\<rparr>)"
proof -
  from assms(2) obtain a0 a1 a2 a3 a4 a5 a6 a7 a8 a9
    where "f = [a0, a1, a2, a3, a4, a5, a6, a7, a8, a9]"
    by (rule length_10_explode)
  with assms(3) have f: "f = [a0, 0xC0, a2, a3, a4, a5, a6, a7, a8, a9]"
    by simp
  have pf: "process_frame [a0, 0xC0, a2, a3, a4, a5, a6, a7, a8, a9, x]
    = Inr (Some (real (le16 (f ! 2) (f ! 3)) / 10, real (le16 (f ! 4) (f ! 5)) / 10))"
    using process_frame_valid [OF assms(2,4), of x] by (simp add: f)
  show ?thesis
    using assms(1)
    by (subst read_loop.simps) (simp add: f pf ser_read_def py_slice_def)
qed

lemma get_reply_after_write:
  assumes "is_open s"
  shows "get_reply (ser_write c s)
    = (reply_check (take 10 (rx s)), s\<lparr>tx := tx s @ [c], rx := drop 10 (rx s)\<rparr>)"
proof -
  have "get_reply (ser_write c s) = read_reply (ser_write c s)"
    using assms by (simp add: get_reply_open is_open_ser_write)
  then show ?thesis
    by (simp add: read_reply_def ser_read_def ser_write_def)
qed

lemma query_valid_reply:
  assumes "is_open s" "rx s = raw @ rest" "length raw = 10"
    "byte_sum (py_slice 2 8 raw) mod 256 = unat (raw ! 8)"
  shows "query s
    = (Inr (Some (real (le16 (raw ! 2) (raw ! 3)) / 10, real (le16 (raw ! 4) (raw ! 5)) / 10)),
       s\<lparr>tx := tx s @ [query_cmd], rx := rest\<rparr>)"
  using assms
  by (simp add: query_def execute_open get_reply_after_write reply_check_full unpack_HH_fields)

section \<open>Decoding a measurement\<close>

text \<open>
  C8. For every 10-byte measurement frame whose checksum holds, the decoded measurement
  is the little-endian 16-bit value of bytes 2 and 3 divided by 10 and that of bytes 4
  and 5 divided by 10. This is what \<open>query\<close> returns when the frame is the reply, what
  \<open>_process_frame\<close> returns for the buffer \<open>byte + d\<close> that \<open>read\<close> hands it (the frame
  and the one byte read after it, 11 bytes, as the format \<open>'<HHxxBBB'\<close> on \<open>data[2:]\<close>
  requires), and what \<open>read\<close> returns in active mode for a frame with marker \<open>0xC0\<close>.
  A frame with field bytes \<open>FA 00\<close> and \<open>C2 01\<close> decodes to 25.0 and 45.0.
\<close>

theorem measurement_decode:
  assumes "length f = 10" "byte_sum (py_slice 2 8 f) mod 256 = unat (f ! 8)"
  shows "(is_open s \<and> rx s = f @ rest \<longrightarrow>
            query s = (Inr (Some (real (le16 (f ! 2) (f ! 3)) / 10,
                                  real (le16 (f ! 4) (f ! 5)) / 10)),
                       s\<lparr>tx := tx s @ [query_cmd], rx := rest\<rparr>))
       \<and> process_frame (f @ [x])
            = Inr (Some (real (le16 (f ! 2) (f ! 3)) / 10, real (le16 (f ! 4) (f ! 5)) / 10))
       \<and> (is_open s \<and> rx s = f @ x # rest \<and> f ! 1 = 0xC0 \<longrightarrow>
            read s = Some (Inr (Some (real (le16 (f ! 2) (f ! 3)) / 10,
                                      real (le16 (f ! 4) (f ! 5)) / 10)),
                           s\<lparr>rx := rest\<rparr>))
       \<and> (f ! 2 = 0xFA \<and> f ! 3 = 0x00 \<and> f ! 4 = 0xC2 \<and> f ! 5 = 0x01 \<longrightarrow>
            (real (le16 (f ! 2) (f ! 3)) / 10, real (le16 (f ! 4) (f ! 5)) / 10) = (25, 45))"
proof (intro conjI impI)
  assume "is_open s \<and> rx s = f @ rest"
  then show "query s = (Inr (Some (real (le16 (f ! 2) (f ! 3)) / 10,
                                  real (le16 (f ! 4) (f ! 5)) / 10)),
                       s\<lparr>tx := tx s @ [query_cmd], rx := rest\<rparr>)"
    using assms by (simp add: query_valid_reply)
next
  show "process_frame (f @ [x])
            = Inr (Some (real (le16 (f ! 2) (f ! 3)) / 10, real (le16 (f ! 4) (f ! 5)) / 10))"
    using assms by (rule process_frame_valid)
next
  assume a: "is_open s \<and> rx s = f @ x # rest \<and> f ! 1 = 0xC0"
  then have "read s = read_loop s"
    by (simp add: read_def ensure_open_open)
  with a show "read s = Some (Inr (Some (real (le16 (f ! 2) (f ! 3)) / 10,
                                      real (le16 (f ! 4) (f ! 5)) / 10)),
                           s\<lparr>rx := rest\<rparr>)"
    using assms by (simp add: read_loop_frame)
next
  assume "f ! 2 = 0xFA \<and> f ! 3 = 0x00 \<and> f ! 4 = 0xC2 \<and> f ! 5 = 0x01"
  then show "(real (le16 (f ! 2) (f ! 3)) / 10, real (le16 (f ! 4) (f ! 5)) / 10) = (25, 45)"
    by (simp add: le16_def)
qed

theorem measurement_decode_witness:
  "length [0xAA, 0xC0, 0xFA, 0x00, 0xC2, 0x01, 0x00, 0x00, 0xBD, 0xAB :: byte] = 10
   \<and> byte_sum (py_slice 2 8 [0xAA, 0xC0, 0xFA, 0x00, 0xC2, 0x01, 0x00, 0x00, 0xBD, 0xAB]) mod 256
       = unat (0xBD :: byte)
   \<and> query \<lparr>use_query_mode = True, is_open = True,
        rx = [0xAA, 0xC0, 0xFA, 0x00, 0xC2, 0x01, 0x00, 0x00, 0xBD, 0xAB], tx = [], printed = []\<rparr>
      = (Inr (Some (25, 45)),
         \<lparr>use_query_mode = True, is_open = True, rx = [], tx = [query_cmd], printed = []\<rparr>)
   \<and> process_frame [0xAA, 0xC0, 0xFA, 0x00, 0xC2, 0x01, 0x00, 0x00, 0xBD, 0xAB, 0xAA]
      = Inr (Some (25, 45))
   \<and> read \<lparr>use_query_mode = False, is_open = True,
        rx = [0xAA, 0xC0, 0xFA, 0x00, 0xC2, 0x01, 0x00, 0x00, 0xBD, 0xAB, 0xAA, 0xC0],
        tx = [], printed = []\<rparr>
      = Some (Inr (Some (25, 45)),
         \<lparr>use_query_mode = False, is_open = True, rx = [0xC0], tx = [], printed = []\<rparr>)"
proof -
  let ?f = "[0xAA, 0xC0, 0xFA, 0x00, 0xC2, 0x01, 0x00, 0x00, 0xBD, 0xAB :: byte]"
  have len: "length ?f = 10" by simp
  have ck: "byte_sum (py_slice 2 8 ?f) mod 256 = unat (?f ! 8)"
    by (simp add: byte_sum_def py_slice_def)
  note q = measurement_decode [OF len ck,
      of "\<lparr>use_query_mode = True, is_open = True, rx = ?f, tx = [], printed = []\<rparr>" "[]" "0xAA"]
  note r = measurement_decode [OF len ck,
      of "\<lparr>use_query_mode = False, is_open = True, rx = ?f @ [0xAA, 0xC0], tx = [], printed = []\<rparr>"
         "[0xC0]" "0xAA"]
  show ?thesis
    using ck q r by (simp add: le16_def)
qed

section \<open>Sleep and work period\<close>

lemma reply_check_error:
  assumes "reply_check raw = Inl e"
  shows "e = IndexError"
  using assms by (simp add: reply_check_def Let_def split: if_splits)

lemma sleep_open:
  assumes "is_open s"
  shows "sleep rd sl s =
    (case reply_check (take 10 (rx s)) of
       Inl e \<Rightarrow> Inl e
     | Inr None \<Rightarrow> Inr 0
     | Inr (Some raw) \<Rightarrow> unpack_B (py_slice 4 5 raw),
     s\<lparr>tx := tx s @ [sleep_cmd rd sl], rx := drop 10 (rx s)\<rparr>)"
  using assms
  by (simp add: sleep_def execute_open get_reply_after_write split: sum.splits option.splits)

text \<open>
  C9. On an open port \<open>sleep(read, sleep)\<close> returns the byte at offset 4 of the reply
  (1 = work, 0 = sleep) when the 10-byte reply passes the checksum check, and returns 0
  when the reply fails the checksum check and when no reply arrives.
\<close>

theorem sleep_reports_work_bit:
  assumes "is_open s"
  shows "(rx s = raw @ rest \<and> length raw = 10
            \<and> byte_sum (py_slice 2 8 raw) mod 256 = unat (raw ! 8) \<longrightarrow>
          sleep rd sl s = (Inr (raw ! 4), s\<lparr>tx := tx s @ [sleep_cmd rd sl], rx := rest\<rparr>))
       \<and> (rx s = raw @ rest \<and> length raw = 10
            \<and> byte_sum (py_slice 2 8 raw) mod 256 \<noteq> unat (raw ! 8) \<longrightarrow>
          sleep rd sl s = (Inr 0, s\<lparr>tx := tx s @ [sleep_cmd rd sl], rx := rest\<rparr>))
       \<and> (rx s = [] \<longrightarrow>
          sleep rd sl s = (Inr 0, s\<lparr>tx := tx s @ [sleep_cmd rd sl], rx := []\<rparr>))"
  using assms
  by (simp add: sleep_open reply_check_full reply_check_absent unpack_B_byte4)

theorem sleep_reports_work_bit_witness:
  "sleep False False \<lparr>use_query_mode = True, is_open = True,
      rx = [0xAA, 0xC5, 0x06, 0x01, 0x01, 0x00, 0xA1, 0x60, 0x09, 0xAB], tx = [], printed = []\<rparr>
    = (Inr 1, \<lparr>use_query_mode = True, is_open = True, rx = [],
                tx = [sleep_cmd False False], printed = []\<rparr>)
   \<and> sleep False False \<lparr>use_query_mode = True, is_open = True,
      rx = [0xAA, 0xC5, 0x06, 0x01, 0x01, 0x00, 0xA1, 0x60, 0x77, 0xAB], tx = [], printed = []\<rparr>
    = (Inr 0, \<lparr>use_query_mode = True, is_open = True, rx = [],
                tx = [sleep_cmd False False], printed = []\<rparr>)
   \<and> sleep False False \<lparr>use_query_mode = True, is_open = True, rx = [], tx = [], printed = []\<rparr>
    = (Inr 0, \<lparr>use_query_mode = True, is_open = True, rx = [],
                tx = [sleep_cmd False False], printed = []\<rparr>)"
  using
    sleep_reports_work_bit [of "\<lparr>use_query_mode = True, is_open = True,
      rx = [0xAA, 0xC5, 0x06, 0x01, 0x01, 0x00, 0xA1, 0x60, 0x09, 0xAB], tx = [], printed = []\<rparr>"
      "[0xAA, 0xC5, 0x06, 0x01, 0x01, 0x00, 0xA1, 0x60, 0x09, 0xAB]" "[]" False False]
    sleep_reports_work_bit [of "\<lparr>use_query_mode = True, is_open = True,
      rx = [0xAA, 0xC5, 0x06, 0x01, 0x01, 0x00, 0xA1, 0x60, 0x77, 0xAB], tx = [], printed = []\<rparr>"
      "[0xAA, 0xC5, 0x06, 0x01, 0x01, 0x00, 0xA1, 0x60, 0x77, 0xAB]" "[]" False False]
    sleep_reports_work_bit [of "\<lparr>use_query_mode = True, is_open = True,
      rx = [], tx = [], printed = []\<rparr>" "[]" "[]" False False]
  by (simp add: byte_sum_def py_slice_def)

lemma set_work_period_open:
  assumes "0 \<le> work_time" "work_time \<le> 30" "is_open s"
  shows "set_work_period rd work_time s =
    (case reply_check (take 10 (rx s)) of Inl e \<Rightarrow> Inl e | Inr r \<Rightarrow> Inr (),
     s\<lparr>tx := tx s @ [work_period_cmd rd work_time], rx := drop 10 (rx s)\<rparr>)"
  using assms
  by (simp add: set_work_period_def execute_open get_reply_after_write split: sum.splits)

text \<open>
  For every \<open>work_time\<close> from 0 to 30, \<open>set_work_period\<close> on an open port writes its
  command, reads the reply and drops it, and returns nothing, when the reply has 9 bytes
  or more, whether it passes the check or not, and when at most 2 bytes arrive.
\<close>

lemma set_work_period_returns_nothing:
  assumes "0 \<le> work_time" "work_time \<le> 30" "is_open s"
    "length (rx s) \<le> 2 \<or> 9 \<le> length (rx s)"
  shows "set_work_period rd work_time s =
    (Inr (), s\<lparr>tx := tx s @ [work_period_cmd rd work_time], rx := drop 10 (rx s)\<rparr>)"
proof -
  have "length (take 10 (rx s)) \<le> 2 \<or> 9 \<le> length (take 10 (rx s))"
    using assms(4) by auto
  then obtain r where "reply_check (take 10 (rx s)) = Inr r"
    using reply_check_returns by blast
  then show ?thesis
    using assms(1-3) by (simp add: set_work_period_open)
qed

lemma set_work_period_returns_nothing_examples:
  "set_work_period False 30 \<lparr>use_query_mode = True, is_open = True,
      rx = [0xAA, 0xC5, 0x08, 0x01, 0x1E, 0x00, 0xA1, 0x60, 0x28, 0xAB, 0x33], tx = [], printed = []\<rparr>
    = (Inr (), \<lparr>use_query_mode = True, is_open = True, rx = [0x33],
                 tx = [work_period_cmd False 30], printed = []\<rparr>)
   \<and> set_work_period False 0 \<lparr>use_query_mode = True, is_open = True,
      rx = [0xAA, 0xC5, 0x08, 0x01, 0x1E, 0x00, 0xA1, 0x60, 0x99, 0xAB], tx = [], printed = []\<rparr>
    = (Inr (), \<lparr>use_query_mode = True, is_open = True, rx = [],
                 tx = [work_period_cmd False 0], printed = []\<rparr>)
   \<and> set_work_period True 7 \<lparr>use_query_mode = True, is_open = True, rx = [], tx = [], printed = []\<rparr>
    = (Inr (), \<lparr>use_query_mode = True, is_open = True, rx = [],
                 tx = [work_period_cmd True 7], printed = []\<rparr>)"
  using
    set_work_period_returns_nothing [of 30 "\<lparr>use_query_mode = True, is_open = True,
      rx = [0xAA, 0xC5, 0x08, 0x01, 0x1E, 0x00, 0xA1, 0x60, 0x28, 0xAB, 0x33], tx = [], printed = []\<rparr>" False]
    set_work_period_returns_nothing [of 0 "\<lparr>use_query_mode = True, is_open = True,
      rx = [0xAA, 0xC5, 0x08, 0x01, 0x1E, 0x00, 0xA1, 0x60, 0x99, 0xAB], tx = [], printed = []\<rparr>" False]
    set_work_period_returns_nothing [of 7 "\<lparr>use_query_mode = True, is_open = True,
      rx = [], tx = [], printed = []\<rparr>" True]
  by simp

text \<open>
  A reply cut short at 3 to 8 bytes is different: \<open>_get_reply\<close> tests only for an empty
  \<open>raw[2:8]\<close> and then indexes \<open>raw[8]\<close>, so \<open>set_work_period\<close> raises after it has
  written its command.
\<close>

lemma set_work_period_short_reply:
  assumes "0 \<le> work_time" "work_time \<le> 30" "is_open s"
    "3 \<le> length (rx s)" "length (rx s) \<le> 8"
  shows "set_work_period rd work_time s =
    (Inl IndexError, s\<lparr>tx := tx s @ [work_period_cmd rd work_time], rx := []\<rparr>)"
  using assms by (simp add: set_work_period_open reply_check_short)

text \<open>
  C10. The claim is that \<open>set_work_period\<close>, for an in-range \<open>work_time\<close>, reads and
  drops the reply and returns nothing whatever the reply. The code does not: with
  \<open>work_time = 0\<close> and an invalid reply of 5 bytes it raises \<open>IndexError\<close>.
\<close>

theorem set_work_period_short_reply_raises:
  "set_work_period False 0 \<lparr>use_query_mode = True, is_open = True,
      rx = [0xAA, 0xC5, 0x08, 0x01, 0x00], tx = [], printed = []\<rparr>
    = (Inl IndexError, \<lparr>use_query_mode = True, is_open = True, rx = [],
                         tx = [work_period_cmd False 0], printed = []\<rparr>)"
  by (simp add: set_work_period_short_reply)

lemma work_period_cmd_head:
  "take 5 (work_period_cmd rd work_time)
     = [0xAA, 0xB4, 0x08, if rd then 0x00 else 0x01, word_of_int work_time]"
  by (simp add: work_period_cmd_def finish_cmd_def finish_cmd_ids_def cmd_begin_def
      sds011_consts Let_def)

lemma work_period_byte:
  assumes "0 \<le> work_time" "work_time \<le> 30"
  shows "uint (work_period_cmd rd work_time ! 4) = work_time"
proof -
  have "work_period_cmd rd work_time ! 4 = word_of_int work_time"
    by (simp add: work_period_cmd_def finish_cmd_def finish_cmd_ids_def cmd_begin_def
      sds011_consts Let_def)
  moreover have "uint (word_of_int work_time :: byte) = work_time"
    using assms by (simp add: uint_word_of_int take_bit_int_eq_self)
  ultimately show ?thesis by simp
qed

text \<open>
  C7. \<open>set_work_period\<close> raises \<open>AssertionError\<close>, with nothing sent, for every
  \<open>work_time\<close> below 0 or above 30. For every \<open>work_time\<close> from 0 to 30, on an open
  port, the assertion passes and the command is built and written to the port, whatever
  the reply: a 19-byte command with its checksum and tail, beginning
  \<open>AA B4 08\<close>, the read/write flag and the period.
\<close>

theorem set_work_period_contract:
  "(work_time < 0 \<or> 30 < work_time \<longrightarrow>
      set_work_period rd work_time s = (Inl AssertionError, s))
   \<and> (0 \<le> work_time \<and> work_time \<le> 30 \<and> is_open s \<longrightarrow>
        fst (set_work_period rd work_time s) \<noteq> Inl AssertionError
      \<and> tx (snd (set_work_period rd work_time s)) = tx s @ [work_period_cmd rd work_time]
      \<and> command_layout (work_period_cmd rd work_time)
      \<and> take 5 (work_period_cmd rd work_time)
          = [0xAA, 0xB4, 0x08, if rd then 0x00 else 0x01, word_of_int work_time]
      \<and> uint (work_period_cmd rd work_time ! 4) = work_time)"
proof (intro conjI impI)
  assume "work_time < 0 \<or> 30 < work_time"
  then show "set_work_period rd work_time s = (Inl AssertionError, s)"
    by (auto simp add: set_work_period_def)
next
  assume a: "0 \<le> work_time \<and> work_time \<le> 30 \<and> is_open s"
  then have eq: "set_work_period rd work_time s =
    (case reply_check (take 10 (rx s)) of Inl e \<Rightarrow> Inl e | Inr r \<Rightarrow> Inr (),
     s\<lparr>tx := tx s @ [work_period_cmd rd work_time], rx := drop 10 (rx s)\<rparr>)"
    by (simp add: set_work_period_open)
  show "fst (set_work_period rd work_time s) \<noteq> Inl AssertionError"
    unfolding eq using reply_check_error [of "take 10 (rx s)"]
    by (auto split: sum.splits)
  show "tx (snd (set_work_period rd work_time s)) = tx s @ [work_period_cmd rd work_time]"
    unfolding eq by simp
  show "command_layout (work_period_cmd rd work_time)"
    by (rule source_commands_layout)
  show "take 5 (work_period_cmd rd work_time)
          = [0xAA, 0xB4, 0x08, if rd then 0x00 else 0x01, word_of_int work_time]"
    by (rule work_period_cmd_head)
  show "uint (work_period_cmd rd work_time ! 4) = work_time"
    using a by (simp add: work_period_byte)
qed

theorem set_work_period_contract_witness:
  "set_work_period False 35 \<lparr>use_query_mode = True, is_open = True, rx = [], tx = [], printed = []\<rparr>
     = (Inl AssertionError,
        \<lparr>use_query_mode = True, is_open = True, rx = [], tx = [], printed = []\<rparr>)
   \<and> fst (set_work_period False 30
        \<lparr>use_query_mode = True, is_open = True, rx = [], tx = [], printed = []\<rparr>)
       \<noteq> Inl AssertionError
   \<and> tx (snd (set_work_period False 30
        \<lparr>use_query_mode = True, is_open = True, rx = [], tx = [], printed = []\<rparr>))
       = [[0xAA, 0xB4, 0x08, 0x01, 0x1E, 0, 0, 0, 0, 0, 0, 0, 0, 0, 0, 0xFF, 0xFF, 0x25, 0xAB]]
   \<and> fst (set_work_period False 0
        \<lparr>use_query_mode = True, is_open = True, rx = [], tx = [], printed = []\<rparr>)
       \<noteq> Inl AssertionError
   \<and> tx (snd (set_work_period False 0
        \<lparr>use_query_mode = True, is_open = True, rx = [], tx = [], printed = []\<rparr>))
       = [[0xAA, 0xB4, 0x08, 0x01, 0x00, 0, 0, 0, 0, 0, 0, 0, 0, 0, 0, 0xFF, 0xFF, 0x07, 0xAB]]"
proof -
  have c30: "work_period_cmd False 30
    = [0xAA, 0xB4, 0x08, 0x01, 0x1E, 0, 0, 0, 0, 0, 0, 0, 0, 0, 0, 0xFF, 0xFF, 0x25, 0xAB]"
    by (simp add: work_period_cmd_def finish_cmd_def finish_cmd_ids_def cmd_begin_def
        sds011_consts byte_sum_def Let_def replicate_10)
  have c0: "work_period_cmd False 0
    = [0xAA, 0xB4, 0x08, 0x01, 0x00, 0, 0, 0, 0, 0, 0, 0, 0, 0, 0, 0xFF, 0xFF, 0x07, 0xAB]"
    by (simp add: work_period_cmd_def finish_cmd_def finish_cmd_ids_def cmd_begin_def
        sds011_consts byte_sum_def Let_def replicate_10)
  show ?thesis
    using
      set_work_period_contract [of 35 False
        "\<lparr>use_query_mode = True, is_open = True, rx = [], tx = [], printed = []\<rparr>"]
      set_work_period_contract [of 30 False
        "\<lparr>use_query_mode = True, is_open = True, rx = [], tx = [], printed = []\<rparr>"]
      set_work_period_contract [of 0 False
        "\<lparr>use_query_mode = True, is_open = True, rx = [], tx = [], printed = []\<rparr>"]
    by (simp add: c30 c0)
qed

section \<open>The cached report mode\<close>

lemma snd_set_report_mode_opened:
  "snd (set_report_mode_opened rd qm s)
    = s\<lparr>use_query_mode := qm, tx := tx s @ [report_mode_cmd rd qm], rx := drop 10 (rx s)\<rparr>"
  by (simp add: set_report_mode_opened_def read_reply_def ser_read_def ser_write_def Let_def
      split: sum.splits option.splits)

lemma snd_open_serial:
  "snd (open_serial s)
    = s\<lparr>is_open := True, tx := tx s @ [report_mode_cmd False (use_query_mode s)],
        rx := drop 10 (rx s)\<rparr>"
proof -
  let ?s1 = "s\<lparr>is_open := True\<rparr>"
  have "snd (open_serial s) = snd (set_report_mode_opened False (use_query_mode ?s1) ?s1)"
    by (simp add: open_serial_def Let_def split: prod.splits sum.splits)
  then show ?thesis
    by (simp add: snd_set_report_mode_opened)
qed

lemma ensure_open_keeps_mode:
  "use_query_mode (snd (ensure_open s)) = use_query_mode s"
  "is_open (snd (ensure_open s))"
  by (simp_all add: ensure_open_def is_serial_open_def snd_open_serial)

lemma execute_keeps_mode:
  "use_query_mode (snd (execute c s)) = use_query_mode s"
  "is_open (snd (execute c s))"
  using ensure_open_keeps_mode [of s]
  by (auto simp add: execute_def ser_write_def split: prod.splits sum.splits)

lemma get_reply_keeps_mode:
  "use_query_mode (snd (get_reply s)) = use_query_mode s"
  using ensure_open_keeps_mode [of s] snd_read_reply [of "snd (ensure_open s)"]
  by (auto simp add: get_reply_def split: prod.splits sum.splits)

lemma set_report_mode_sets_mode:
  "use_query_mode (snd (set_report_mode rd qm s)) = qm"
proof -
  let ?s0 = "s\<lparr>use_query_mode := qm\<rparr>"
  obtain r1 s1 where e: "execute (report_mode_cmd rd qm) ?s0 = (r1, s1)"
    by (cases "execute (report_mode_cmd rd qm) ?s0")
  have m1: "use_query_mode s1 = qm"
    using execute_keeps_mode(1) [of "report_mode_cmd rd qm" ?s0] e by simp
  obtain r2 s2 where g: "get_reply s1 = (r2, s2)"
    by (cases "get_reply s1")
  have m2: "use_query_mode s2 = qm"
    using get_reply_keeps_mode [of s1] g m1 by simp
  show ?thesis
    using m1 m2
    by (simp add: set_report_mode_def Let_def e g split: sum.splits option.splits)
qed

lemma query_keeps_mode: "use_query_mode (snd (query s)) = use_query_mode s"
proof -
  obtain r1 s1 where e: "execute query_cmd s = (r1, s1)"
    by (cases "execute query_cmd s")
  have m1: "use_query_mode s1 = use_query_mode s"
    using execute_keeps_mode(1) [of query_cmd s] e by simp
  obtain r2 s2 where g: "get_reply s1 = (r2, s2)"
    by (cases "get_reply s1")
  have m2: "use_query_mode s2 = use_query_mode s"
    using get_reply_keeps_mode [of s1] g m1 by simp
  show ?thesis
    using m1 m2
    by (simp add: query_def e g split: sum.splits option.splits)
qed

lemma sleep_keeps_mode: "use_query_mode (snd (sleep rd sl s)) = use_query_mode s"
proof -
  obtain r1 s1 where e: "execute (sleep_cmd rd sl) s = (r1, s1)"
    by (cases "execute (sleep_cmd rd sl) s")
  have m1: "use_query_mode s1 = use_query_mode s"
    using execute_keeps_mode(1) [of "sleep_cmd rd sl" s] e by simp
  obtain r2 s2 where g: "get_reply s1 = (r2, s2)"
    by (cases "get_reply s1")
  have m2: "use_query_mode s2 = use_query_mode s"
    using get_reply_keeps_mode [of s1] g m1 by simp
  show ?thesis
    using m1 m2
    by (simp add: sleep_def e g split: sum.splits option.splits)
qed

lemma set_work_period_keeps_mode:
  "use_query_mode (snd (set_work_period rd work_time s)) = use_query_mode s"
proof -
  obtain r1 s1 where e: "execute (work_period_cmd rd work_time) s = (r1, s1)"
    by (cases "execute (work_period_cmd rd work_time) s")
  have m1: "use_query_mode s1 = use_query_mode s"
    using execute_keeps_mode(1) [of "work_period_cmd rd work_time" s] e by simp
  obtain r2 s2 where g: "get_reply s1 = (r2, s2)"
    by (cases "get_reply s1")
  have m2: "use_query_mode s2 = use_query_mode s"
    using get_reply_keeps_mode [of s1] g m1 by simp
  show ?thesis
    using m1 m2
    by (simp add: set_work_period_def e g split: sum.splits)
qed

lemma check_firmware_version_keeps_mode:
  "use_query_mode (snd (check_firmware_version s)) = use_query_mode s"
proof -
  obtain r1 s1 where e: "execute firmware_version_cmd s = (r1, s1)"
    by (cases "execute firmware_version_cmd s")
  have m1: "use_query_mode s1 = use_query_mode s"
    using execute_keeps_mode(1) [of firmware_version_cmd s] e by simp
  obtain r2 s2 where g: "get_reply s1 = (r2, s2)"
    by (cases "get_reply s1")
  have m2: "use_query_mode s2 = use_query_mode s"
    using get_reply_keeps_mode [of s1] g m1 by simp
  show ?thesis
    using m1 m2
    by (simp add: check_firmware_version_def e g split: sum.splits option.splits)
qed

lemma read_loop_keeps_mode:
  assumes "read_loop s = Some y"
  shows "use_query_mode (snd y) = use_query_mode s"
proof (rule read_loop.raw_induct [where P = "\<lambda>s y. use_query_mode (snd y) = use_query_mode s", OF _ assms])
  fix loop s y
  assume ih: "\<And>s y. loop s = Some y \<Longrightarrow> use_query_mode (snd y) = use_query_mode s"
    and body: "(let (byte, s1) = ser_read 1 s;
          (d, s2) = ser_read 10 s1
      in if py_slice 0 1 d = [0xC0]
         then (case process_frame (byte @ d) of
                 Inl e \<Rightarrow> Some (Inl e, s2)
               | Inr data \<Rightarrow>
                   Some (Inr data,
                     if data = None \<and> use_query_mode s2
                     then s2\<lparr>printed := printed s2 @ [''SDS011 is in query reporting mode, use query()'']\<rparr>
                     else s2))
         else if byte \<noteq> HEAD then loop s2
         else Some (Inr None, s2)) = Some y"
  show "use_query_mode (snd y) = use_query_mode s"
  proof (cases "py_slice 0 1 (take 10 (drop 1 (rx s))) = [0xC0]")
    case True
    then show ?thesis
      using body by (auto simp add: ser_read_def split: sum.splits if_splits)
  next
    case False
    show ?thesis
    proof (cases "take 1 (rx s) \<noteq> HEAD")
      case True
      with False body have "loop (s\<lparr>rx := drop 11 (rx s)\<rparr>) = Some y"
        by (simp add: ser_read_def)
      from ih [OF this] show ?thesis by simp
    next
      case False
      with \<open>py_slice 0 1 (take 10 (drop 1 (rx s))) \<noteq> [0xC0]\<close> body show ?thesis
        by (auto simp add: ser_read_def)
    qed
  qed
qed

lemma read_keeps_mode:
  assumes "read s = Some y"
  shows "use_query_mode (snd y) = use_query_mode s"
proof -
  obtain r1 s1 where e: "ensure_open s = (r1, s1)"
    by (cases "ensure_open s")
  have m1: "use_query_mode s1 = use_query_mode s"
    using ensure_open_keeps_mode(1) [of s] e by simp
  show ?thesis
  proof (cases r1)
    case (Inl err)
    then show ?thesis using assms e m1 by (auto simp add: read_def)
  next
    case (Inr u)
    then have "read_loop s1 = Some y" using assms e by (simp add: read_def)
    then show ?thesis using read_loop_keeps_mode m1 by simp
  qed
qed

lemma set_report_mode_reply:
  assumes "is_open s"
  shows "set_report_mode rd qm s =
    (case reply_check (take 10 (rx s)) of
       Inl e \<Rightarrow> Inl e
     | Inr None \<Rightarrow> Inr None
     | Inr (Some raw) \<Rightarrow>
         (case unpack_B (py_slice 4 5 raw) of Inl e \<Rightarrow> Inl e | Inr b \<Rightarrow> Inr (Some b)),
     s\<lparr>use_query_mode := qm, tx := tx s @ [report_mode_cmd rd qm], rx := drop 10 (rx s)\<rparr>)"
  using assms
  by (simp add: set_report_mode_def execute_open get_reply_after_write Let_def
      split: sum.splits option.splits)

text \<open>
  C5, as the code has it. \<open>set_report_mode\<close> assigns its \<open>query\<close> argument to
  \<open>use_query_mode\<close> in its first statement: after every call, a read or a write,
  whatever the reply and whether or not the call raises, the cached mode is that
  argument. No other operation changes the cached mode. On an open port
  \<open>set_report_mode\<close> returns the byte at offset 4 of a 10-byte reply that passes the
  checksum check, and \<open>None\<close> when the reply fails the check or no reply arrives.
\<close>

theorem set_report_mode_caches_argument:
  "use_query_mode (snd (set_report_mode rd qm s)) = qm
   \<and> use_query_mode (snd (query s)) = use_query_mode s
   \<and> use_query_mode (snd (sleep rd sl s)) = use_query_mode s
   \<and> use_query_mode (snd (set_work_period rd work_time s)) = use_query_mode s
   \<and> use_query_mode (snd (check_firmware_version s)) = use_query_mode s
   \<and> (read s = Some y \<longrightarrow> use_query_mode (snd y) = use_query_mode s)
   \<and> (is_open s \<and> rx s = raw @ rest \<and> length raw = 10 \<longrightarrow>
        set_report_mode rd qm s =
          (Inr (if byte_sum (py_slice 2 8 raw) mod 256 = unat (raw ! 8)
                then Some (raw ! 4) else None),
           s\<lparr>use_query_mode := qm, tx := tx s @ [report_mode_cmd rd qm], rx := rest\<rparr>))
   \<and> (is_open s \<and> rx s = [] \<longrightarrow>
        set_report_mode rd qm s =
          (Inr None, s\<lparr>use_query_mode := qm, tx := tx s @ [report_mode_cmd rd qm], rx := []\<rparr>))"
proof (intro conjI impI)
  show "use_query_mode (snd (set_report_mode rd qm s)) = qm"
    by (rule set_report_mode_sets_mode)
  show "use_query_mode (snd (query s)) = use_query_mode s"
    by (rule query_keeps_mode)
  show "use_query_mode (snd (sleep rd sl s)) = use_query_mode s"
    by (rule sleep_keeps_mode)
  show "use_query_mode (snd (set_work_period rd work_time s)) = use_query_mode s"
    by (rule set_work_period_keeps_mode)
  show "use_query_mode (snd (check_firmware_version s)) = use_query_mode s"
    by (rule check_firmware_version_keeps_mode)
  show "use_query_mode (snd y) = use_query_mode s" if "read s = Some y"
    using that by (rule read_keeps_mode)
  show "set_report_mode rd qm s =
          (Inr (if byte_sum (py_slice 2 8 raw) mod 256 = unat (raw ! 8)
                then Some (raw ! 4) else None),
           s\<lparr>use_query_mode := qm, tx := tx s @ [report_mode_cmd rd qm], rx := rest\<rparr>)"
    if "is_open s \<and> rx s = raw @ rest \<and> length raw = 10"
    using that by (simp add: set_report_mode_reply reply_check_full unpack_B_byte4)
  show "set_report_mode rd qm s =
          (Inr None, s\<lparr>use_query_mode := qm, tx := tx s @ [report_mode_cmd rd qm], rx := []\<rparr>)"
    if "is_open s \<and> rx s = []"
    using that by (simp add: set_report_mode_reply reply_check_absent)
qed

theorem set_report_mode_caches_argument_witness:
  "set_report_mode True False \<lparr>use_query_mode = True, is_open = True,
      rx = [0xAA, 0xC5, 0x02, 0x00, 0x01, 0x00, 0xA1, 0x60, 0x04, 0xAB], tx = [], printed = []\<rparr>
    = (Inr (Some 0x01), \<lparr>use_query_mode = False, is_open = True, rx = [],
                          tx = [report_mode_cmd True False], printed = []\<rparr>)
   \<and> set_report_mode False True \<lparr>use_query_mode = False, is_open = True,
      rx = [], tx = [], printed = []\<rparr>
    = (Inr None, \<lparr>use_query_mode = True, is_open = True, rx = [],
                   tx = [report_mode_cmd False True], printed = []\<rparr>)
   \<and> read \<lparr>use_query_mode = False, is_open = True,
        rx = [0xAA, 0xC0, 0xFA, 0x00, 0xC2, 0x01, 0x00, 0x00, 0xBD, 0xAB, 0xAA],
        tx = [], printed = []\<rparr>
      = Some (Inr (Some (25, 45)),
         \<lparr>use_query_mode = False, is_open = True, rx = [], tx = [], printed = []\<rparr>)
   \<and> use_query_mode (snd (Inr (Some (25, 45)) :: error + measurement option,
         \<lparr>use_query_mode = False, is_open = True, rx = [], tx = [], printed = []\<rparr>)) = False"
proof -
  let ?f = "[0xAA, 0xC0, 0xFA, 0x00, 0xC2, 0x01, 0x00, 0x00, 0xBD, 0xAB :: byte]"
  let ?s = "\<lparr>use_query_mode = False, is_open = True, rx = ?f @ [0xAA], tx = [], printed = []\<rparr>"
  let ?y = "(Inr (Some (25, 45)) :: error + measurement option,
         \<lparr>use_query_mode = False, is_open = True, rx = [], tx = [], printed = []\<rparr>)"
  have "read_loop ?s = Some ?y"
    using read_loop_frame [of ?s ?f "0xAA" "[]"]
    by (simp add: byte_sum_def py_slice_def le16_def)
  then have rd: "read ?s = Some ?y"
    by (simp add: read_def ensure_open_open)
  show ?thesis
    using rd
      set_report_mode_caches_argument [of True False
        "\<lparr>use_query_mode = True, is_open = True,
          rx = [0xAA, 0xC5, 0x02, 0x00, 0x01, 0x00, 0xA1, 0x60, 0x04, 0xAB], tx = [], printed = []\<rparr>"
        _ _ _ "[0xAA, 0xC5, 0x02, 0x00, 0x01, 0x00, 0xA1, 0x60, 0x04, 0xAB]" "[]"]
      set_report_mode_caches_argument [of False True
        "\<lparr>use_query_mode = False, is_open = True, rx = [], tx = [], printed = []\<rparr>"]
      set_report_mode_caches_argument [of _ _ ?s _ _ ?y]
    by (simp add: byte_sum_def py_slice_def)
qed

text \<open>
  The claim as the specification states it fails: a call with \<open>read=True\<close> whose
  reply is absent changes the cached mode from \<open>True\<close> to \<open>False\<close>.
\<close>

theorem set_report_mode_read_changes_cache:
  "use_query_mode \<lparr>use_query_mode = True, is_open = True, rx = [], tx = [], printed = []\<rparr>
     = True
   \<and> set_report_mode True False
        \<lparr>use_query_mode = True, is_open = True, rx = [], tx = [], printed = []\<rparr>
     = (Inr None, \<lparr>use_query_mode = False, is_open = True, rx = [],
                    tx = [report_mode_cmd True False], printed = []\<rparr>)"
  by (simp add: set_report_mode_reply reply_check_absent)

section \<open>The scan of \<open>read\<close>\<close>

text \<open>
  Once the stream is exhausted both reads of an iteration return \<open>b''\<close>, which is
  neither \<open>HEAD\<close> nor begins with \<open>0xC0\<close>: the loop goes round for ever.
\<close>

lemma read_loop_silent:
  assumes "rx s = []"
  shows "read_loop s = None"
proof (rule ccontr)
  assume "read_loop s \<noteq> None"
  then obtain y where y: "read_loop s = Some y" by auto
  have "rx s \<noteq> []"
  proof (rule read_loop.raw_induct [where P = "\<lambda>s y. rx s \<noteq> []", OF _ y])
    fix loop s y
    assume ih: "\<And>s y. loop s = Some y \<Longrightarrow> rx s \<noteq> []"
      and body: "(let (byte, s1) = ser_read 1 s;
          (d, s2) = ser_read 10 s1
      in if py_slice 0 1 d = [0xC0]
         then (case process_frame (byte @ d) of
                 Inl e \<Rightarrow> Some (Inl e, s2)
               | Inr data \<Rightarrow>
                   Some (Inr data,
                     if data = None \<and> use_query_mode s2
                     then s2\<lparr>printed := printed s2 @ [''SDS011 is in query reporting mode, use query()'']\<rparr>
                     else s2))
         else if byte \<noteq> HEAD then loop s2
         else Some (Inr None, s2)) = Some y"
    show "rx s \<noteq> []"
    proof
      assume e: "rx s = []"
      with body have "loop (s\<lparr>rx := []\<rparr>) = Some y"
        by (simp add: ser_read_def py_slice_def HEAD_def)
      from ih [OF this] show False by simp
    qed
  qed
  with assms show False by simp
qed

text \<open>
  C4. The claim is that \<open>read\<close> returns for every input stream, with an absent value
  when the transport yields no data. The code does not: on an open port on which no
  byte arrives, \<open>read\<close> never returns.
\<close>

theorem read_on_silent_port_never_returns:
  "read \<lparr>use_query_mode = False, is_open = True, rx = [], tx = [], printed = []\<rparr> = None"
  by (simp add: read_def ensure_open_open read_loop_silent)

text \<open>
  When the stream ends with a frame, the eleventh byte is missing, \<open>byte + d\<close> has 10
  bytes and \<open>struct.unpack\<close> raises.
\<close>

lemma read_frame_without_next_byte_raises:
  "read \<lparr>use_query_mode = False, is_open = True,
      rx = [0xAA, 0xC0, 0xFA, 0x00, 0xC2, 0x01, 0x00, 0x00, 0xBD, 0xAB], tx = [], printed = []\<rparr>
    = Some (Inl StructError,
        \<lparr>use_query_mode = False, is_open = True, rx = [], tx = [], printed = []\<rparr>)"
  by (simp add: read_def ensure_open_open, subst read_loop.simps)
     (simp add: ser_read_def py_slice_def process_frame_wrong_size)

text \<open>
  Every iteration that sees neither marker nor head consumes 11 bytes: \<open>k\<close> such
  blocks are skipped.
\<close>

lemma read_loop_aligned_noise:
  assumes "length g = 11 * k"
    "\<forall>i<k. g ! (11 * i) \<noteq> 0xAA \<and> g ! (11 * i + 1) \<noteq> 0xC0"
    "rx s = g @ t"
  shows "read_loop s = read_loop (s\<lparr>rx := t\<rparr>)"
  using assms
proof (induction k arbitrary: g s)
  case 0
  then have "rx s = t" by simp
  then have "s\<lparr>rx := t\<rparr> = s" by (cases s) simp
  then show ?case by simp
next
  case (Suc k)
  let ?g' = "drop 11 g"
  let ?s' = "s\<lparr>rx := drop 11 (rx s)\<rparr>"
  from Suc.prems(1) have len: "length g = 11 + 11 * k" by simp
  from Suc.prems(2) have g0: "g ! 0 \<noteq> 0xAA" and g1: "g ! 1 \<noteq> 0xC0"
    by (auto dest: spec [of _ 0])
  have t0: "take 1 (rx s) = [g ! 0]"
    using len Suc.prems(3) by (cases g) auto
  have t1: "take 1 (drop 1 (rx s)) = [g ! 1]"
    using len Suc.prems(3) by (cases g; cases "tl g") auto
  have step: "read_loop s = read_loop ?s'"
  proof (rule read_loop_skip)
    show "take 1 (rx s) \<noteq> [0xAA]"
      unfolding t0 using g0 by simp
    show "take 1 (drop 1 (rx s)) \<noteq> [0xC0]"
      unfolding t1 using g1 by simp
  qed
  have rx': "rx ?s' = ?g' @ t"
    using len Suc.prems(3) by simp
  have len': "length ?g' = 11 * k"
    using len by simp
  have noise': "\<forall>i<k. ?g' ! (11 * i) \<noteq> 0xAA \<and> ?g' ! (11 * i + 1) \<noteq> 0xC0"
  proof (intro allI impI)
    fix i assume i: "i < k"
    then have "Suc i < Suc k" by simp
    with Suc.prems(2) have "g ! (11 * Suc i) \<noteq> 0xAA \<and> g ! (11 * Suc i + 1) \<noteq> 0xC0"
      by blast
    moreover have "?g' ! (11 * i) = g ! (11 * Suc i)" "?g' ! (11 * i + 1) = g ! (11 * Suc i + 1)"
      using len i by (simp_all add: add.commute add.left_commute)
    ultimately show "?g' ! (11 * i) \<noteq> 0xAA \<and> ?g' ! (11 * i + 1) \<noteq> 0xC0"
      by simp
  qed
  have "read_loop ?s' = read_loop (?s'\<lparr>rx := t\<rparr>)"
    using len' noise' rx' by (rule Suc.IH)
  with step show ?case by simp
qed

text \<open>
  A first byte \<open>0xC0\<close> among the ten ends \<open>read\<close> with what \<open>_process_frame\<close>
  gives for the eleven bytes (fewer when the stream runs out).
\<close>

lemma read_loop_marker:
  assumes "take 1 (drop 1 (rx s)) = [0xC0]"
  shows "read_loop s =
    Some (case process_frame (take 11 (rx s)) of
            Inl e \<Rightarrow> (Inl e, s\<lparr>rx := drop 11 (rx s)\<rparr>)
          | Inr data \<Rightarrow>
              (Inr data,
               if data = None \<and> use_query_mode s
               then s\<lparr>rx := drop 11 (rx s),
                      printed := printed s @ [''SDS011 is in query reporting mode, use query()'']\<rparr>
               else s\<lparr>rx := drop 11 (rx s)\<rparr>))"
proof -
  have cat: "take (Suc 0) (rx s) @ take 10 (drop (Suc 0) (rx s)) = take 11 (rx s)"
    using take_add [of 1 10 "rx s"] by simp
  show ?thesis
    using assms
    by (subst read_loop.simps, cases "process_frame (take 11 (rx s))")
       (simp_all add: ser_read_def py_slice_def cat)
qed

lemma process_frame_bad_checksum:
  assumes "length data = 11" "byte_sum (py_slice 2 8 data) mod 256 \<noteq> unat (data ! 8)"
  shows "process_frame data = Inr None"
  using assms by (simp add: process_frame_def unpack_HHxxBBB_def Let_def)

lemma read_open: "is_open s \<Longrightarrow> read s = read_loop s"
  by (simp add: read_def ensure_open_open)

text \<open>
  C2, as the code has it. In active mode every iteration of \<open>read\<close> reads one byte and
  then ten more, whatever the first byte is (\<open>take 1 (rx s)\<close> is \<open>byte\<close> and
  \<open>take 1 (drop 1 (rx s))\<close> is \<open>d[0:1]\<close>). When the first of the ten is \<open>0xC0\<close>,
  \<open>read\<close> ends with the outcome of \<open>_process_frame(byte + d)\<close> on the eleven bytes read
  (\<open>take 11 (rx s)\<close>), the head byte not being compared: in particular \<open>None\<close>, with
  the advisory line in query mode, when the eleven bytes fail the checksum. When the
  first of the ten is not \<open>0xC0\<close> all eleven bytes are gone: \<open>read\<close> goes on with the
  bytes after them if the single byte was not \<open>0xAA\<close>, and returns \<open>None\<close> if it was.
  Hence, for a stream of \<open>11 * k\<close> garbage bytes, none equal to \<open>0xAA\<close> and none at
  a marker position (offset 1 of a block of 11) equal to \<open>0xC0\<close>, followed by a frame
  with marker \<open>0xC0\<close> and a matching checksum and by at least one more byte, \<open>read\<close>
  returns exactly that frame's measurement and consumes the frame and one byte beyond it.
\<close>

theorem read_scans_in_blocks_of_eleven:
  assumes "is_open s"
  shows "(take 1 (drop 1 (rx s)) = [0xC0] \<longrightarrow>
            read s =
              Some (case process_frame (take 11 (rx s)) of
                      Inl e \<Rightarrow> (Inl e, s\<lparr>rx := drop 11 (rx s)\<rparr>)
                    | Inr data \<Rightarrow>
                        (Inr data,
                         if data = None \<and> use_query_mode s
                         then s\<lparr>rx := drop 11 (rx s),
                                printed := printed s @ [''SDS011 is in query reporting mode, use query()'']\<rparr>
                         else s\<lparr>rx := drop 11 (rx s)\<rparr>)))
       \<and> (take 1 (drop 1 (rx s)) = [0xC0] \<and> 11 \<le> length (rx s)
            \<and> byte_sum (py_slice 2 8 (rx s)) mod 256 \<noteq> unat (rx s ! 8) \<longrightarrow>
            read s =
              Some (Inr None,
                    if use_query_mode s
                    then s\<lparr>rx := drop 11 (rx s),
                           printed := printed s @ [''SDS011 is in query reporting mode, use query()'']\<rparr>
                    else s\<lparr>rx := drop 11 (rx s)\<rparr>))
       \<and> (take 1 (rx s) \<noteq> [0xAA] \<and> take 1 (drop 1 (rx s)) \<noteq> [0xC0] \<longrightarrow>
            read s = read (s\<lparr>rx := drop 11 (rx s)\<rparr>))
       \<and> (take 1 (rx s) = [0xAA] \<and> take 1 (drop 1 (rx s)) \<noteq> [0xC0] \<longrightarrow>
            read s = Some (Inr None, s\<lparr>rx := drop 11 (rx s)\<rparr>))
       \<and> (rx s = g @ f @ x # rest \<and> length g = 11 * k
            \<and> (\<forall>b\<in>set g. b \<noteq> 0xAA) \<and> (\<forall>i<k. g ! (11 * i + 1) \<noteq> 0xC0)
            \<and> length f = 10 \<and> f ! 1 = 0xC0
            \<and> byte_sum (py_slice 2 8 f) mod 256 = unat (f ! 8) \<longrightarrow>
            read s = Some (Inr (Some (real (le16 (f ! 2) (f ! 3)) / 10,
                                      real (le16 (f ! 4) (f ! 5)) / 10)),
                           s\<lparr>rx := rest\<rparr>))"
proof (intro conjI impI)
  assume m: "take 1 (drop 1 (rx s)) = [0xC0]"
  then show "read s =
              Some (case process_frame (take 11 (rx s)) of
                      Inl e \<Rightarrow> (Inl e, s\<lparr>rx := drop 11 (rx s)\<rparr>)
                    | Inr data \<Rightarrow>
                        (Inr data,
                         if data = None \<and> use_query_mode s
                         then s\<lparr>rx := drop 11 (rx s),
                                printed := printed s @ [''SDS011 is in query reporting mode, use query()'']\<rparr>
                         else s\<lparr>rx := drop 11 (rx s)\<rparr>))"
    using assms by (simp only: read_open read_loop_marker)
next
  assume b: "take 1 (drop 1 (rx s)) = [0xC0] \<and> 11 \<le> length (rx s)
            \<and> byte_sum (py_slice 2 8 (rx s)) mod 256 \<noteq> unat (rx s ! 8)"
  then have "process_frame (take 11 (rx s)) = Inr None"
    by (intro process_frame_bad_checksum) (simp_all add: py_slice_def)
  with b show "read s =
              Some (Inr None,
                    if use_query_mode s
                    then s\<lparr>rx := drop 11 (rx s),
                           printed := printed s @ [''SDS011 is in query reporting mode, use query()'']\<rparr>
                    else s\<lparr>rx := drop 11 (rx s)\<rparr>)"
    using assms by (simp add: read_open read_loop_marker)
next
  assume "take 1 (rx s) \<noteq> [0xAA] \<and> take 1 (drop 1 (rx s)) \<noteq> [0xC0]"
  then have "read_loop s = read_loop (s\<lparr>rx := drop 11 (rx s)\<rparr>)"
    by (simp add: read_loop_skip)
  then show "read s = read (s\<lparr>rx := drop 11 (rx s)\<rparr>)"
    using assms by (simp add: read_open)
next
  assume "take 1 (rx s) = [0xAA] \<and> take 1 (drop 1 (rx s)) \<noteq> [0xC0]"
  then have "read_loop s = Some (Inr None, s\<lparr>rx := drop 11 (rx s)\<rparr>)"
    by (simp add: read_loop_head_without_marker)
  then show "read s = Some (Inr None, s\<lparr>rx := drop 11 (rx s)\<rparr>)"
    using assms by (simp add: read_open)
next
  assume a: "rx s = g @ f @ x # rest \<and> length g = 11 * k
            \<and> (\<forall>b\<in>set g. b \<noteq> 0xAA) \<and> (\<forall>i<k. g ! (11 * i + 1) \<noteq> 0xC0)
            \<and> length f = 10 \<and> f ! 1 = 0xC0
            \<and> byte_sum (py_slice 2 8 f) mod 256 = unat (f ! 8)"
  let ?s' = "s\<lparr>rx := f @ x # rest\<rparr>"
  have noise: "\<forall>i<k. g ! (11 * i) \<noteq> 0xAA \<and> g ! (11 * i + 1) \<noteq> 0xC0"
  proof (intro allI impI)
    fix i assume "i < k"
    with a have "11 * i < length g" and m: "g ! (11 * i + 1) \<noteq> 0xC0" by simp_all
    then have "g ! (11 * i) \<in> set g" by simp
    with a m show "g ! (11 * i) \<noteq> 0xAA \<and> g ! (11 * i + 1) \<noteq> 0xC0" by blast
  qed
  have "read_loop s = read_loop ?s'"
    using a noise by (intro read_loop_aligned_noise [where g = g and k = k]) simp_all
  also have "read_loop ?s'
    = Some (Inr (Some (real (le16 (f ! 2) (f ! 3)) / 10, real (le16 (f ! 4) (f ! 5)) / 10)),
            ?s'\<lparr>rx := rest\<rparr>)"
    using a by (intro read_loop_frame [where x = x]) simp_all
  finally show "read s = Some (Inr (Some (real (le16 (f ! 2) (f ! 3)) / 10,
                                      real (le16 (f ! 4) (f ! 5)) / 10)),
                           s\<lparr>rx := rest\<rparr>)"
    using assms by (simp add: read_open)
qed

theorem read_scans_in_blocks_of_eleven_witness:
  "read \<lparr>use_query_mode = False, is_open = True,
      rx = [0xAA, 0xC0, 0xFA, 0x00, 0xC2, 0x01, 0x00, 0x00, 0xBD, 0xAB],
      tx = [], printed = []\<rparr>
    = Some (Inl StructError,
        \<lparr>use_query_mode = False, is_open = True, rx = [], tx = [], printed = []\<rparr>)
   \<and> read \<lparr>use_query_mode = True, is_open = True,
      rx = [0xAA, 0xC0, 0xFA, 0x00, 0xC2, 0x01, 0x00, 0x00, 0x99, 0xAB, 0xAA, 0xC0],
      tx = [], printed = []\<rparr>
    = Some (Inr None,
        \<lparr>use_query_mode = True, is_open = True, rx = [0xC0], tx = [],
           printed = [''SDS011 is in query reporting mode, use query()'']\<rparr>)
   \<and> read \<lparr>use_query_mode = False, is_open = True,
      rx = [0x00, 0xAA, 0xC0, 0xFA, 0x00, 0xC2, 0x01, 0x00, 0x00, 0xBD, 0xAB, 0x11, 0x12],
      tx = [], printed = []\<rparr>
    = read \<lparr>use_query_mode = False, is_open = True, rx = [0x11, 0x12], tx = [], printed = []\<rparr>
   \<and> read \<lparr>use_query_mode = False, is_open = True,
      rx = [0xAA, 0x00, 0x00, 0x00, 0x00, 0x00, 0x00, 0x00, 0x00, 0x00, 0x00, 0x07],
      tx = [], printed = []\<rparr>
    = Some (Inr None,
        \<lparr>use_query_mode = False, is_open = True, rx = [0x07], tx = [], printed = []\<rparr>)
   \<and> read \<lparr>use_query_mode = False, is_open = True,
      rx = [0x01, 0x02, 0x03, 0x04, 0x05, 0x06, 0x07, 0x08, 0x09, 0x0A, 0x0B,
            0xAA, 0xC0, 0xFA, 0x00, 0xC2, 0x01, 0x00, 0x00, 0xBD, 0xAB, 0x55, 0x66],
      tx = [], printed = []\<rparr>
    = Some (Inr (Some (25, 45)),
        \<lparr>use_query_mode = False, is_open = True, rx = [0x66], tx = [], printed = []\<rparr>)"
proof -
  note m = read_scans_in_blocks_of_eleven [of "\<lparr>use_query_mode = False, is_open = True,
      rx = [0xAA, 0xC0, 0xFA, 0x00, 0xC2, 0x01, 0x00, 0x00, 0xBD, 0xAB],
      tx = [], printed = []\<rparr>" "[]" "[]" 0 "[]" 0, THEN conjunct1]
  note n = read_scans_in_blocks_of_eleven [of "\<lparr>use_query_mode = True, is_open = True,
      rx = [0xAA, 0xC0, 0xFA, 0x00, 0xC2, 0x01, 0x00, 0x00, 0x99, 0xAB, 0xAA, 0xC0],
      tx = [], printed = []\<rparr>" "[]" "[]" 0 "[]" 0, THEN conjunct2, THEN conjunct1]
  note a = read_scans_in_blocks_of_eleven [of "\<lparr>use_query_mode = False, is_open = True,
      rx = [0x00, 0xAA, 0xC0, 0xFA, 0x00, 0xC2, 0x01, 0x00, 0x00, 0xBD, 0xAB, 0x11, 0x12],
      tx = [], printed = []\<rparr>" "[]" "[]" 0 "[]" 0,
      THEN conjunct2, THEN conjunct2, THEN conjunct1]
  note b = read_scans_in_blocks_of_eleven [of "\<lparr>use_query_mode = False, is_open = True,
      rx = [0xAA, 0x00, 0x00, 0x00, 0x00, 0x00, 0x00, 0x00, 0x00, 0x00, 0x00, 0x07],
      tx = [], printed = []\<rparr>" "[]" "[]" 0 "[]" 0,
      THEN conjunct2, THEN conjunct2, THEN conjunct2, THEN conjunct1]
  note c = read_scans_in_blocks_of_eleven [of "\<lparr>use_query_mode = False, is_open = True,
      rx = [0x01, 0x02, 0x03, 0x04, 0x05, 0x06, 0x07, 0x08, 0x09, 0x0A, 0x0B,
            0xAA, 0xC0, 0xFA, 0x00, 0xC2, 0x01, 0x00, 0x00, 0xBD, 0xAB, 0x55, 0x66],
      tx = [], printed = []\<rparr>"
      "[0x01, 0x02, 0x03, 0x04, 0x05, 0x06, 0x07, 0x08, 0x09, 0x0A, 0x0B]"
      "[0xAA, 0xC0, 0xFA, 0x00, 0xC2, 0x01, 0x00, 0x00, 0xBD, 0xAB]" "0x55" "[0x66]" 1,
      THEN conjunct2, THEN conjunct2, THEN conjunct2, THEN conjunct2]
  have m': "read \<lparr>use_query_mode = False, is_open = True,
      rx = [0xAA, 0xC0, 0xFA, 0x00, 0xC2, 0x01, 0x00, 0x00, 0xBD, 0xAB],
      tx = [], printed = []\<rparr>
    = Some (Inl StructError,
        \<lparr>use_query_mode = False, is_open = True, rx = [], tx = [], printed = []\<rparr>)"
    using m by (simp add: process_frame_wrong_size)
  have n': "read \<lparr>use_query_mode = True, is_open = True,
      rx = [0xAA, 0xC0, 0xFA, 0x00, 0xC2, 0x01, 0x00, 0x00, 0x99, 0xAB, 0xAA, 0xC0],
      tx = [], printed = []\<rparr>
    = Some (Inr None,
        \<lparr>use_query_mode = True, is_open = True, rx = [0xC0], tx = [],
           printed = [''SDS011 is in query reporting mode, use query()'']\<rparr>)"
    using n by (simp add: byte_sum_def py_slice_def)
  have a': "read \<lparr>use_query_mode = False, is_open = True,
      rx = [0x00, 0xAA, 0xC0, 0xFA, 0x00, 0xC2, 0x01, 0x00, 0x00, 0xBD, 0xAB, 0x11, 0x12],
      tx = [], printed = []\<rparr>
    = read \<lparr>use_query_mode = False, is_open = True, rx = [0x11, 0x12], tx = [], printed = []\<rparr>"
    using a by simp
  have b': "read \<lparr>use_query_mode = False, is_open = True,
      rx = [0xAA, 0x00, 0x00, 0x00, 0x00, 0x00, 0x00, 0x00, 0x00, 0x00, 0x00, 0x07],
      tx = [], printed = []\<rparr>
    = Some (Inr None,
        \<lparr>use_query_mode = False, is_open = True, rx = [0x07], tx = [], printed = []\<rparr>)"
    using b by simp
  have c': "read \<lparr>use_query_mode = False, is_open = True,
      rx = [0x01, 0x02, 0x03, 0x04, 0x05, 0x06, 0x07, 0x08, 0x09, 0x0A, 0x0B,
            0xAA, 0xC0, 0xFA, 0x00, 0xC2, 0x01, 0x00, 0x00, 0xBD, 0xAB, 0x55, 0x66],
      tx = [], printed = []\<rparr>
    = Some (Inr (Some (25, 45)),
        \<lparr>use_query_mode = False, is_open = True, rx = [0x66], tx = [], printed = []\<rparr>)"
    using c by (simp add: byte_sum_def py_slice_def le16_def)
  from m' n' a' b' c' show ?thesis by blast
qed

text \<open>
  The claim as the specification states it fails. One garbage byte \<open>0x00\<close> followed by
  a valid frame: the frame is read as the ten bytes after the garbage byte and dropped,
  and \<open>read\<close> returns \<open>None\<close> at the next \<open>0xAA\<close>, eleven bytes after the frame. No
  garbage at all: the frame's measurement is returned, and the byte \<open>0x55\<close> that follows
  the frame is consumed with it.
\<close>

theorem read_loses_frame_behind_garbage_byte:
  "read \<lparr>use_query_mode = False, is_open = True,
      rx = [0x00,
            0xAA, 0xC0, 0xFA, 0x00, 0xC2, 0x01, 0x00, 0x00, 0xBD, 0xAB,
            0xAA, 0x00, 0x00, 0x00, 0x00, 0x00, 0x00, 0x00, 0x00, 0x00, 0x00, 0x07],
      tx = [], printed = []\<rparr>
    = Some (Inr None,
        \<lparr>use_query_mode = False, is_open = True, rx = [0x07], tx = [], printed = []\<rparr>)
   \<and> read \<lparr>use_query_mode = False, is_open = True,
      rx = [0xAA, 0xC0, 0xFA, 0x00, 0xC2, 0x01, 0x00, 0x00, 0xBD, 0xAB, 0x55, 0x66],
      tx = [], printed = []\<rparr>
    = Some (Inr (Some (25, 45)),
        \<lparr>use_query_mode = False, is_open = True, rx = [0x66], tx = [], printed = []\<rparr>)"
proof -
  let ?s1 = "\<lparr>use_query_mode = False, is_open = True,
      rx = [0x00,
            0xAA, 0xC0, 0xFA, 0x00, 0xC2, 0x01, 0x00, 0x00, 0xBD, 0xAB,
            0xAA, 0x00, 0x00, 0x00, 0x00, 0x00, 0x00, 0x00, 0x00, 0x00, 0x00, 0x07 :: byte],
      tx = [], printed = []\<rparr>"
  let ?s2 = "\<lparr>use_query_mode = False, is_open = True,
      rx = [0xAA, 0x00, 0x00, 0x00, 0x00, 0x00, 0x00, 0x00, 0x00, 0x00, 0x00, 0x07 :: byte],
      tx = [], printed = []\<rparr>"
  let ?s3 = "\<lparr>use_query_mode = False, is_open = True,
      rx = [0xAA, 0xC0, 0xFA, 0x00, 0xC2, 0x01, 0x00, 0x00, 0xBD, 0xAB, 0x55, 0x66 :: byte],
      tx = [], printed = []\<rparr>"
  have "read_loop ?s1 = read_loop ?s2"
    using read_loop_skip [of ?s1] by simp
  also have "read_loop ?s2 = Some (Inr None,
        \<lparr>use_query_mode = False, is_open = True, rx = [0x07], tx = [], printed = []\<rparr>)"
    using read_loop_head_without_marker [of ?s2] by simp
  finally have a: "read ?s1 = Some (Inr None,
        \<lparr>use_query_mode = False, is_open = True, rx = [0x07], tx = [], printed = []\<rparr>)"
    by (simp add: read_open)
  have "read_loop ?s3 = Some (Inr (Some (25, 45)),
        \<lparr>use_query_mode = False, is_open = True, rx = [0x66], tx = [], printed = []\<rparr>)"
    using read_loop_frame [of ?s3 "[0xAA, 0xC0, 0xFA, 0x00, 0xC2, 0x01, 0x00, 0x00, 0xBD, 0xAB]"
        "0x55" "[0x66]"]
    by (simp add: byte_sum_def py_slice_def le16_def)
  then have b: "read ?s3 = Some (Inr (Some (25, 45)),
        \<lparr>use_query_mode = False, is_open = True, rx = [0x66], tx = [], printed = []\<rparr>)"
    by (simp add: read_open)
  from a b show ?thesis by simp
qed

section \<open>Rejected and malformed replies\<close>

lemma query_open:
  assumes "is_open s"
  shows "fst (query s) =
    (case reply_check (take 10 (rx s)) of
       Inl e \<Rightarrow> Inl e
     | Inr None \<Rightarrow> Inr None
     | Inr (Some raw) \<Rightarrow>
         (case unpack_HH (py_slice 2 6 raw) of
            Inl e \<Rightarrow> Inl e
          | Inr data \<Rightarrow> Inr (Some (real (fst data) / 10, real (snd data) / 10))))"
  using assms
  by (simp add: query_def execute_open get_reply_after_write split: sum.splits option.splits)

lemma check_firmware_version_open:
  assumes "is_open s"
  shows "check_firmware_version s =
    (case reply_check (take 10 (rx s)) of
       Inl e \<Rightarrow> Inl e
     | Inr None \<Rightarrow> Inl TypeError
     | Inr (Some raw) \<Rightarrow>
         (if length raw \<le> 4 then Inl IndexError
          else Inr (decimal (unat (raw ! 2)) @ ''-'' @ decimal (unat (raw ! 3))
                    @ ''-'' @ decimal (unat (raw ! 4)))),
     s\<lparr>tx := tx s @ [firmware_version_cmd], rx := drop 10 (rx s)\<rparr>)"
  using assms
  by (simp add: check_firmware_version_def execute_open get_reply_after_write
      split: sum.splits option.splits)

text \<open>
  A reply that \<open>_get_reply\<close> rejects makes \<open>check_firmware_version\<close> raise: it
  subscripts \<open>None\<close>, where \<open>set_report_mode\<close>, \<open>query\<close> and \<open>sleep\<close> test
  \<open>raw is None\<close> first.
\<close>

lemma check_firmware_version_rejected_reply_raises:
  assumes "is_open s" "reply_check (take 10 (rx s)) = Inr None"
  shows "fst (check_firmware_version s) = Inl TypeError"
  using assms by (simp add: check_firmware_version_open)

text \<open>A read that times out with 3 to 8 bytes makes \<open>_get_reply\<close> raise at \<open>raw[8]\<close>.\<close>

lemma get_reply_short_read_raises:
  assumes "is_open s" "3 \<le> length (rx s)" "length (rx s) \<le> 8"
  shows "get_reply s = (Inl IndexError, s\<lparr>rx := []\<rparr>)"
  using assms
  by (simp add: get_reply_open read_reply_def ser_read_def reply_check_short)

text \<open>
  C3, as the code has it. On an open port, when the reply is a 10-byte buffer whose
  checksum does not match, or is absent (at most 2 bytes arrive before the timeout),
  \<open>_get_reply\<close> returns \<open>None\<close> and nothing is raised: \<open>set_report_mode\<close> and \<open>query\<close>
  return \<open>None\<close>, \<open>sleep\<close> returns 0 and \<open>set_work_period\<close> (for a period from 0 to
  30) returns nothing. A wrong head byte is not a reason for rejection: a 10-byte reply
  whose checksum matches is returned by \<open>_get_reply\<close> whatever its head.
\<close>

theorem rejected_reply_gives_no_data:
  assumes "is_open s"
  shows "(rx s = raw @ rest \<and> length raw = 10
            \<and> byte_sum (py_slice 2 8 raw) mod 256 \<noteq> unat (raw ! 8) \<longrightarrow>
            fst (get_reply s) = Inr None
          \<and> fst (set_report_mode rd qm s) = Inr None
          \<and> fst (query s) = Inr None
          \<and> fst (sleep rd sl s) = Inr 0
          \<and> (0 \<le> work_time \<and> work_time \<le> 30 \<longrightarrow>
               fst (set_work_period rd work_time s) = Inr ()))
       \<and> (length (rx s) \<le> 2 \<longrightarrow>
            fst (get_reply s) = Inr None
          \<and> fst (set_report_mode rd qm s) = Inr None
          \<and> fst (query s) = Inr None
          \<and> fst (sleep rd sl s) = Inr 0
          \<and> (0 \<le> work_time \<and> work_time \<le> 30 \<longrightarrow>
               fst (set_work_period rd work_time s) = Inr ()))
       \<and> (rx s = raw @ rest \<and> length raw = 10
            \<and> byte_sum (py_slice 2 8 raw) mod 256 = unat (raw ! 8) \<longrightarrow>
            fst (get_reply s) = Inr (Some raw))"
proof (intro conjI impI)
  assume a: "rx s = raw @ rest \<and> length raw = 10
            \<and> byte_sum (py_slice 2 8 raw) mod 256 \<noteq> unat (raw ! 8)"
  then have r: "reply_check (take 10 (rx s)) = Inr None"
    by (simp add: reply_check_full)
  show "fst (get_reply s) = Inr None"
    using assms r by (simp add: get_reply_open read_reply_def ser_read_def)
  show "fst (set_report_mode rd qm s) = Inr None"
    using assms r by (simp add: set_report_mode_reply)
  show "fst (query s) = Inr None"
    using assms r by (simp add: query_open)
  show "fst (sleep rd sl s) = Inr 0"
    using assms r by (simp add: sleep_open)
  show "fst (set_work_period rd work_time s) = Inr ()"
    if "0 \<le> work_time \<and> work_time \<le> 30"
    using assms r that by (simp add: set_work_period_open)
next
  assume a: "length (rx s) \<le> 2"
  then have r: "reply_check (take 10 (rx s)) = Inr None"
    by (simp add: reply_check_absent)
  show "fst (get_reply s) = Inr None"
    using assms r by (simp add: get_reply_open read_reply_def ser_read_def)
  show "fst (set_report_mode rd qm s) = Inr None"
    using assms r by (simp add: set_report_mode_reply)
  show "fst (query s) = Inr None"
    using assms r by (simp add: query_open)
  show "fst (sleep rd sl s) = Inr 0"
    using assms r by (simp add: sleep_open)
  show "fst (set_work_period rd work_time s) = Inr ()"
    if "0 \<le> work_time \<and> work_time \<le> 30"
    using assms r that by (simp add: set_work_period_open)
next
  assume "rx s = raw @ rest \<and> length raw = 10
            \<and> byte_sum (py_slice 2 8 raw) mod 256 = unat (raw ! 8)"
  then show "fst (get_reply s) = Inr (Some raw)"
    using assms by (simp add: get_reply_open read_reply_full)
qed

theorem rejected_reply_gives_no_data_witness:
  "fst (get_reply \<lparr>use_query_mode = True, is_open = True,
      rx = [0xAA, 0xC5, 0x06, 0x01, 0x01, 0x00, 0xA1, 0x60, 0x77, 0xAB], tx = [], printed = []\<rparr>)
     = Inr None
   \<and> fst (query \<lparr>use_query_mode = True, is_open = True,
      rx = [0xAA, 0xC5, 0x06, 0x01, 0x01, 0x00, 0xA1, 0x60, 0x77, 0xAB], tx = [], printed = []\<rparr>)
     = Inr None
   \<and> fst (set_work_period False 5 \<lparr>use_query_mode = True, is_open = True,
      rx = [0xAA, 0xC5, 0x06, 0x01, 0x01, 0x00, 0xA1, 0x60, 0x77, 0xAB], tx = [], printed = []\<rparr>)
     = Inr ()
   \<and> fst (sleep False True \<lparr>use_query_mode = True, is_open = True,
      rx = [0xAA, 0xC5], tx = [], printed = []\<rparr>) = Inr 0
   \<and> fst (set_report_mode False True \<lparr>use_query_mode = True, is_open = True,
      rx = [0xAA, 0xC5], tx = [], printed = []\<rparr>) = Inr None
   \<and> fst (set_work_period False 5 \<lparr>use_query_mode = True, is_open = True,
      rx = [0xAA, 0xC5], tx = [], printed = []\<rparr>) = Inr ()
   \<and> fst (get_reply \<lparr>use_query_mode = True, is_open = True,
      rx = [0x00, 0xC5, 0x06, 0x01, 0x01, 0x00, 0xA1, 0x60, 0x09, 0xAB], tx = [], printed = []\<rparr>)
     = Inr (Some [0x00, 0xC5, 0x06, 0x01, 0x01, 0x00, 0xA1, 0x60, 0x09, 0xAB])"
proof -
  note a = rejected_reply_gives_no_data [of "\<lparr>use_query_mode = True, is_open = True,
      rx = [0xAA, 0xC5, 0x06, 0x01, 0x01, 0x00, 0xA1, 0x60, 0x77, 0xAB], tx = [], printed = []\<rparr>"
      "[0xAA, 0xC5, 0x06, 0x01, 0x01, 0x00, 0xA1, 0x60, 0x77, 0xAB]" "[]" False True True 5,
      THEN conjunct1]
  note b = rejected_reply_gives_no_data [of "\<lparr>use_query_mode = True, is_open = True,
      rx = [0xAA, 0xC5], tx = [], printed = []\<rparr>" "[]" "[]" False True True 5,
      THEN conjunct2, THEN conjunct1]
  note c = rejected_reply_gives_no_data [of "\<lparr>use_query_mode = True, is_open = True,
      rx = [0x00, 0xC5, 0x06, 0x01, 0x01, 0x00, 0xA1, 0x60, 0x09, 0xAB], tx = [], printed = []\<rparr>"
      "[0x00, 0xC5, 0x06, 0x01, 0x01, 0x00, 0xA1, 0x60, 0x09, 0xAB]" "[]" False True True 5,
      THEN conjunct2, THEN conjunct2]
  show ?thesis
    using a b c by (simp add: byte_sum_def py_slice_def)
qed

text \<open>
  The claim as the specification states it fails. A reply with head \<open>0x00\<close> and a
  matching checksum gives \<open>query\<close> a measurement, not an absent value;
  \<open>check_firmware_version\<close> raises \<open>TypeError\<close> when no reply arrives; and a short
  read of 5 bytes makes \<open>_get_reply\<close> raise \<open>IndexError\<close>.
\<close>

theorem malformed_reply_not_always_absent:
  "fst (query \<lparr>use_query_mode = True, is_open = True,
      rx = [0x00, 0xC0, 0xFA, 0x00, 0xC2, 0x01, 0x00, 0x00, 0xBD, 0xAB], tx = [], printed = []\<rparr>)
     = Inr (Some (25, 45))
   \<and> fst (check_firmware_version \<lparr>use_query_mode = True, is_open = True,
      rx = [], tx = [], printed = []\<rparr>) = Inl TypeError
   \<and> fst (get_reply \<lparr>use_query_mode = True, is_open = True,
      rx = [0xAA, 0xC5, 0x06, 0x01, 0x01], tx = [], printed = []\<rparr>) = Inl IndexError"
proof -
  have "reply_check [0x00, 0xC0, 0xFA, 0x00, 0xC2, 0x01, 0x00, 0x00, 0xBD, 0xAB]
    = Inr (Some [0x00, 0xC0, 0xFA, 0x00, 0xC2, 0x01, 0x00, 0x00, 0xBD, 0xAB])"
    by (simp add: reply_check_full byte_sum_def py_slice_def)
  then have a: "fst (query \<lparr>use_query_mode = True, is_open = True,
      rx = [0x00, 0xC0, 0xFA, 0x00, 0xC2, 0x01, 0x00, 0x00, 0xBD, 0xAB], tx = [], printed = []\<rparr>)
     = Inr (Some (25, 45))"
    by (simp add: query_open unpack_HH_fields le16_def)
  have b: "fst (check_firmware_version \<lparr>use_query_mode = True, is_open = True,
      rx = [], tx = [], printed = []\<rparr>) = Inl TypeError"
    by (simp add: check_firmware_version_rejected_reply_raises reply_check_absent)
  have c: "fst (get_reply \<lparr>use_query_mode = True, is_open = True,
      rx = [0xAA, 0xC5, 0x06, 0x01, 0x01], tx = [], printed = []\<rparr>) = Inl IndexError"
    by (simp add: get_reply_short_read_raises)
  from a b c show ?thesis by simp
qed

section \<open>A closed port\<close>

text \<open>
  The theorems above are stated for an open port. On a closed port every operation
  first runs \<open>open_serial\<close>, which writes the mode command for the cached mode and
  reads a reply of its own; if that raises, the operation raises; otherwise what
  follows is the operation on the port now open.
\<close>

lemma open_serial_opens: "is_open (snd (open_serial s))"
  by (simp add: snd_open_serial)

lemma execute_closed:
  assumes "\<not> is_open s"
  shows "execute c s =
    (case open_serial s of (Inl e, s1) \<Rightarrow> (Inl e, s1) | (Inr u, s1) \<Rightarrow> execute c s1)"
proof -
  obtain r1 s1 where o: "open_serial s = (r1, s1)" by (cases "open_serial s")
  have "is_open s1" using open_serial_opens [of s] o by simp
  then show ?thesis
    using assms o
    by (simp add: execute_def ensure_open_def is_serial_open_def split: sum.splits)
qed

lemma sleep_closed:
  assumes "\<not> is_open s"
  shows "sleep rd sl s =
    (case open_serial s of (Inl e, s1) \<Rightarrow> (Inl e, s1) | (Inr u, s1) \<Rightarrow> sleep rd sl s1)"
proof -
  obtain r1 s1 where o: "open_serial s = (r1, s1)" by (cases "open_serial s")
  show ?thesis
    by (cases r1) (simp_all add: sleep_def execute_closed [OF assms(1)] o)
qed

lemma query_closed:
  assumes "\<not> is_open s"
  shows "query s =
    (case open_serial s of (Inl e, s1) \<Rightarrow> (Inl e, s1) | (Inr u, s1) \<Rightarrow> query s1)"
proof -
  obtain r1 s1 where o: "open_serial s = (r1, s1)" by (cases "open_serial s")
  show ?thesis
    by (cases r1) (simp_all add: query_def execute_closed [OF assms(1)] o)
qed

lemma set_work_period_closed:
  assumes "\<not> is_open s" "0 \<le> work_time" "work_time \<le> 30"
  shows "set_work_period rd work_time s =
    (case open_serial s of (Inl e, s1) \<Rightarrow> (Inl e, s1)
     | (Inr u, s1) \<Rightarrow> set_work_period rd work_time s1)"
proof -
  obtain r1 s1 where o: "open_serial s = (r1, s1)" by (cases "open_serial s")
  show ?thesis
    by (cases r1) (simp_all add: set_work_period_def execute_closed [OF assms(1)] o assms(2,3))
qed

lemma check_firmware_version_closed:
  assumes "\<not> is_open s"
  shows "check_firmware_version s =
    (case open_serial s of (Inl e, s1) \<Rightarrow> (Inl e, s1)
     | (Inr u, s1) \<Rightarrow> check_firmware_version s1)"
proof -
  obtain r1 s1 where o: "open_serial s = (r1, s1)" by (cases "open_serial s")
  show ?thesis
    by (cases r1) (simp_all add: check_firmware_version_def execute_closed [OF assms(1)] o)
qed

lemma read_closed:
  assumes "\<not> is_open s"
  shows "read s =
    (case open_serial s of (Inl e, s1) \<Rightarrow> Some (Inl e, s1) | (Inr u, s1) \<Rightarrow> read s1)"
proof -
  obtain r1 s1 where o: "open_serial s = (r1, s1)" by (cases "open_serial s")
  have "is_open s1" using open_serial_opens [of s] o by simp
  then show ?thesis
    using assms o
    by (simp add: read_def ensure_open_def is_serial_open_def split: sum.splits)
qed

lemma open_serial_full_reply:
  assumes "rx s = raw @ rest" "length raw = 10"
  shows "open_serial s =
    (Inr (), s\<lparr>is_open := True, tx := tx s @ [report_mode_cmd False (use_query_mode s)],
               rx := rest\<rparr>)"
proof -
  have "fst (open_serial s) = Inr ()"
    using assms
    by (simp add: open_serial_def set_report_mode_opened_def read_reply_def ser_read_def
        ser_write_def reply_check_full unpack_B_byte4 Let_def)
  moreover have "snd (open_serial s) = s\<lparr>is_open := True,
      tx := tx s @ [report_mode_cmd False (use_query_mode s)], rx := rest\<rparr>"
    using assms by (simp add: snd_open_serial)
  ultimately show ?thesis by (simp add: prod_eq_iff)
qed

lemma set_report_mode_closed:
  assumes "\<not> is_open s"
  shows "set_report_mode rd qm s =
    (case open_serial (s\<lparr>use_query_mode := qm\<rparr>) of
       (Inl e, s1) \<Rightarrow> (Inl e, s1)
     | (Inr u, s1) \<Rightarrow> set_report_mode rd qm s1)"
proof -
  let ?s0 = "s\<lparr>use_query_mode := qm\<rparr>"
  obtain r1 s1 where o: "open_serial ?s0 = (r1, s1)" by (cases "open_serial ?s0")
  have c: "\<not> is_open ?s0" using assms by simp
  have "s1 = snd (open_serial ?s0)" using o by simp
  then have "s1\<lparr>use_query_mode := qm\<rparr> = s1"
    by (simp add: snd_open_serial)
  then show ?thesis
    by (cases r1) (simp_all add: set_report_mode_def Let_def execute_closed [OF c] o)
qed

end
